theory Spec2Isabelle
  imports Main "HOL-Library.AList" "HOL-Library.Sublist"
begin

section \<open>Python values\<close>

text \<open>
  The client of \<^verbatim>\<open>spyder/plugins/completion/languageserver/client.py\<close> exchanges
  pickled Python objects with the transport process.  The values that occur are the
  JSON-like ones and the callables a caller hands over as \<^verbatim>\<open>response_callback\<close>.
  A dictionary is an association list in insertion order (keys are strings on the wire);
  a callable is an opaque handle.  Floats are not part of the value model.
\<close>

datatype pyval =
    PNone
  | PBool bool
  | PInt int
  | PStr string
  | PList "pyval list"
  | PDict "(string \<times> pyval) list"
  | PCallable nat

type_synonym dict = "(string \<times> pyval) list"

text \<open>The exceptions that the modelled code can raise or has a handler for.\<close>

datatype exn =
    KeyError
  | TypeError
  | IndexError
  | AttributeError
  | ValueError
  | RuntimeError
  | ZMQError
  | OtherError string

subsection \<open>Truthiness, hashing, containment, subscripts\<close>

fun py_truthy :: "pyval \<Rightarrow> bool" where
  "py_truthy PNone = False"
| "py_truthy (PBool b) = b"
| "py_truthy (PInt n) = (n \<noteq> 0)"
| "py_truthy (PStr s) = (s \<noteq> [])"
| "py_truthy (PList xs) = (xs \<noteq> [])"
| "py_truthy (PDict d) = (d \<noteq> [])"
| "py_truthy (PCallable f) = True"

text \<open>
  Keys of the tables \<^verbatim>\<open>req_status\<close> and \<^verbatim>\<open>req_reply\<close>.  Python compares and
  hashes \<^verbatim>\<open>True\<close> as \<^verbatim>\<open>1\<close> and \<^verbatim>\<open>False\<close> as \<^verbatim>\<open>0\<close>; lists and
  dictionaries are unhashable, and using one as a key raises \<^verbatim>\<open>TypeError\<close>
  (\<open>None\<close> below).
\<close>

datatype key = KNone | KInt int | KStr string | KFun nat

fun py_key :: "pyval \<Rightarrow> key option" where
  "py_key PNone = Some KNone"
| "py_key (PBool b) = Some (KInt (if b then 1 else 0))"
| "py_key (PInt n) = Some (KInt n)"
| "py_key (PStr s) = Some (KStr s)"
| "py_key (PCallable f) = Some (KFun f)"
| "py_key (PList xs) = None"
| "py_key (PDict d) = None"

text \<open>\<^verbatim>\<open>s in x\<close> for a string \<open>s\<close>: key membership in a dictionary, element
  membership in a list, substring test in a string, \<^verbatim>\<open>TypeError\<close> otherwise.\<close>

fun py_in :: "string \<Rightarrow> pyval \<Rightarrow> exn + bool" where
  "py_in s (PDict d) = Inr (s \<in> set (map fst d))"
| "py_in s (PList xs) = Inr (PStr s \<in> set xs)"
| "py_in s (PStr t) = Inr (sublist s t)"
| "py_in s _ = Inl TypeError"

text \<open>\<^verbatim>\<open>x[s]\<close> for a string \<open>s\<close>: only a dictionary accepts a string subscript.\<close>

fun py_getitem :: "pyval \<Rightarrow> string \<Rightarrow> exn + pyval" where
  "py_getitem (PDict d) s = (case map_of d s of None \<Rightarrow> Inl KeyError | Some v \<Rightarrow> Inr v)"
| "py_getitem _ s = Inl TypeError"

text \<open>\<^verbatim>\<open>x.get(s, default)\<close>: only a dictionary has the method.\<close>

fun py_get :: "pyval \<Rightarrow> string \<Rightarrow> pyval \<Rightarrow> exn + pyval" where
  "py_get (PDict d) s dflt = Inr (case map_of d s of None \<Rightarrow> dflt | Some v \<Rightarrow> v)"
| "py_get _ s dflt = Inl AttributeError"

text \<open>\<^verbatim>\<open>x[0]\<close>.  The keys of a dictionary are strings, so \<^verbatim>\<open>0\<close> is never one.\<close>

fun py_first :: "pyval \<Rightarrow> exn + pyval" where
  "py_first (PStr []) = Inl IndexError"
| "py_first (PStr (c # cs)) = Inr (PStr [c])"
| "py_first (PList []) = Inl IndexError"
| "py_first (PList (x # xs)) = Inr x"
| "py_first (PDict d) = Inl KeyError"
| "py_first _ = Inl TypeError"

text \<open>\<^verbatim>\<open>''.join(x)\<close>: the items of \<open>x\<close> must all be strings; iterating a string
  gives its characters and iterating a dictionary gives its keys.\<close>

fun the_str :: "pyval \<Rightarrow> string option" where
  "the_str (PStr s) = Some s"
| "the_str _ = None"

fun py_join :: "pyval \<Rightarrow> exn + string" where
  "py_join (PList xs) =
     (if list_all (\<lambda>x. the_str x \<noteq> None) xs
      then Inr (concat (map (\<lambda>x. case the_str x of Some s \<Rightarrow> s | None \<Rightarrow> []) xs))
      else Inl TypeError)"
| "py_join (PStr s) = Inr s"
| "py_join (PDict d) = Inr (concat (map fst d))"
| "py_join _ = Inl TypeError"

subsection \<open>\<^verbatim>\<open>int(x)\<close>\<close>

text \<open>
  \<^verbatim>\<open>int\<close> of a string strips surrounding white space, reads an optional sign and
  then decimal digits, where single underscores may separate digits.  A
  \<^typ>\<open>char\<close> is a code point below 256: of these \<^verbatim>\<open>int\<close> skips the blank, the
  characters 9 to 13, and the characters 133 and 160; the only decimal digits are
  \<^verbatim>\<open>0\<close> to \<^verbatim>\<open>9\<close>.
\<close>

definition is_space :: "char \<Rightarrow> bool" where
  "is_space c =
     (let n = (of_char c :: nat) in (9 \<le> n \<and> n \<le> 13) \<or> n = 32 \<or> n = 133 \<or> n = 160)"

definition digit_val :: "char \<Rightarrow> nat option" where
  "digit_val c =
     (let n = (of_char c :: nat) in if 48 \<le> n \<and> n \<le> 57 then Some (n - 48) else None)"

fun parse_digits :: "string \<Rightarrow> nat \<Rightarrow> nat option" where
  "parse_digits [] acc = Some acc"
| "parse_digits [c] acc =
     (case digit_val c of None \<Rightarrow> None | Some v \<Rightarrow> Some (10 * acc + v))"
| "parse_digits (c # d # ds) acc =
     (if c = CHR ''_'' then
        (case digit_val d of None \<Rightarrow> None | Some v \<Rightarrow> parse_digits ds (10 * acc + v))
      else
        (case digit_val c of None \<Rightarrow> None | Some v \<Rightarrow> parse_digits (d # ds) (10 * acc + v)))"

definition parse_nat :: "string \<Rightarrow> nat option" where
  "parse_nat s =
     (case s of
        [] \<Rightarrow> None
      | c # cs \<Rightarrow> (case digit_val c of None \<Rightarrow> None | Some v \<Rightarrow> parse_digits cs v))"

definition int_of_str :: "string \<Rightarrow> int option" where
  "int_of_str s =
     (let t = rev (dropWhile is_space (rev (dropWhile is_space s))) in
      case t of
        [] \<Rightarrow> None
      | c # cs \<Rightarrow>
          if c = CHR ''-'' then map_option (\<lambda>n. - int n) (parse_nat cs)
          else if c = CHR ''+'' then map_option int (parse_nat cs)
          else map_option int (parse_nat t))"

fun py_int :: "pyval \<Rightarrow> exn + int" where
  "py_int (PInt n) = Inr n"
| "py_int (PBool b) = Inr (if b then 1 else 0)"
| "py_int (PStr s) = (case int_of_str s of None \<Rightarrow> Inl ValueError | Some n \<Rightarrow> Inr n)"
| "py_int _ = Inl TypeError"

text \<open>\<^verbatim>\<open>isinstance(x, int)\<close>: \<^verbatim>\<open>bool\<close> is a subclass of \<^verbatim>\<open>int\<close>.\<close>

fun isinstance_int :: "pyval \<Rightarrow> bool" where
  "isinstance_int (PInt n) = True"
| "isinstance_int (PBool b) = True"
| "isinstance_int _ = False"

section \<open>The client session and its environment\<close>

text \<open>
  The signals of \<^verbatim>\<open>LSPClient\<close>: \<^verbatim>\<open>sig_initialize = Signal(dict, str)\<close>,
  \<^verbatim>\<open>sig_server_error = Signal(str)\<close> and \<^verbatim>\<open>sig_went_down = Signal(str)\<close>.
\<close>

datatype signal =
    sig_initialize dict string
  | sig_server_error string
  | sig_went_down string

text \<open>\<^verbatim>\<open>MessageKind\<close> of the transport package.\<close>

datatype MessageKind = REQUEST | RESPONSE | NOTIFICATION

text \<open>\<^verbatim>\<open>QProcess.ProcessState\<close>.\<close>

datatype ProcessState = NotRunning | Starting | Running

text \<open>
  The fields of \<^verbatim>\<open>LSPClient.__init__\<close> that the modelled methods read or write.
  \<open>transport\<close> and \<open>server\<close> say whether the \<^verbatim>\<open>QProcess\<close> object exists
  (\<^verbatim>\<open>None\<close> before \<^verbatim>\<open>start\<close>, and \<open>server\<close> stays \<^verbatim>\<open>None\<close> for an external or
  stdio server).  \<open>stdio_pid\<close> is \<^verbatim>\<open>None\<close> or the process id carried by the
  server-ready notification.  \<open>TEXT_DOCUMENT_SYNC_OPTIONS\<close> is the module-level
  dictionary of that name, which \<^verbatim>\<open>process_server_capabilities\<close> writes to.

  What the session does to the outside is recorded in the state as well: the signals
  emitted so far (\<open>emitted\<close>), the messages accepted by \<^verbatim>\<open>zmq_out_socket\<close>
  (\<open>outbox\<close>), the wall clock in milliseconds (\<open>now\<close>), and how many liveness polls,
  send attempts and sleeps have happened.
\<close>

record client =
  language :: string
  initialized :: bool
  ready_to_close :: bool
  request_seq :: int
  req_status :: "key \<rightharpoonup> string"
  req_reply :: "key \<rightharpoonup> pyval"
  transport :: bool
  server :: bool
  stdio_pid :: "int option"
  transport_unresponsive :: bool
  server_unresponsive :: bool
  plugin_configurations :: pyval
  server_capabilites :: dict
  TEXT_DOCUMENT_SYNC_OPTIONS :: dict
  notifier_enabled :: bool
  emitted :: "signal list"
  outbox :: "dict list"
  now :: int
  polls :: nat
  attempts :: nat
  sleeps :: nat

text \<open>What the operating system answers to one liveness poll:
  \<^verbatim>\<open>self.transport.state()\<close>, \<^verbatim>\<open>self.server.state()\<close>,
  \<^verbatim>\<open>psutil.pid_exists(self.stdio_pid)\<close> and \<^verbatim>\<open>psutil.Process(self.stdio_pid).status()\<close>
  (\<open>None\<close> when it raises \<^verbatim>\<open>psutil.NoSuchProcess\<close>).\<close>

record probe =
  transport_state :: ProcessState
  server_state :: ProcessState
  pid_exists :: bool
  process_status :: "string option"

text \<open>What \<^verbatim>\<open>zmq_out_socket.send_pyobj(msg, flags=zmq.NOBLOCK)\<close> does on one attempt:
  it takes the message, raises \<^verbatim>\<open>zmq.error.Again\<close> (the queue is full), or raises
  another \<^verbatim>\<open>zmq.ZMQError\<close>.\<close>

datatype send_outcome = Sent | Again | Failed

text \<open>
  Everything the file imports or receives from outside: the configuration
  (\<^verbatim>\<open>DEV\<close>, \<^verbatim>\<open>get_debug_level()\<close>, \<^verbatim>\<open>ClientConstants.CANCEL\<close>), the two registries
  that \<^verbatim>\<open>class_register\<close> builds (method name to the name of the Python method),
  the methods of the provider mix-in and the decorated senders
  (\<open>call_external\<close>, \<open>call_sender\<close>), the callables stored in \<^verbatim>\<open>req_reply\<close>
  (\<open>call_callback\<close>), and the outside world: the answer to the \<open>n\<close>-th liveness
  poll, the outcome of the \<open>n\<close>-th send attempt, how many milliseconds the \<open>n\<close>-th
  attempt takes (\<open>cost\<close>), and by how many milliseconds the \<open>n\<close>-th
  \<^verbatim>\<open>time.sleep(.1)\<close> oversleeps (\<open>lag\<close>).  A call returns the exception it
  raised, if any, together with the state it left behind.
\<close>

record env =
  DEV :: bool
  debug_level :: int
  CANCEL :: string
  handler_registry :: "string \<rightharpoonup> string"
  sender_registry :: "string \<rightharpoonup> string"
  call_external :: "string \<Rightarrow> pyval list \<Rightarrow> client \<Rightarrow> exn option \<times> client"
  call_sender :: "string \<Rightarrow> pyval \<Rightarrow> client \<Rightarrow> (exn + pyval) \<times> client"
  call_callback :: "nat \<Rightarrow> pyval list \<Rightarrow> client \<Rightarrow> exn option \<times> client"
  procs :: "nat \<Rightarrow> probe"
  chan :: "nat \<Rightarrow> send_outcome"
  cost :: "nat \<Rightarrow> nat"
  lag :: "nat \<Rightarrow> nat"

definition emit :: "signal \<Rightarrow> client \<Rightarrow> client" where
  "emit s c = c\<lparr>emitted := emitted c @ [s]\<rparr>"

section \<open>Liveness\<close>

definition is_transport_alive :: "probe \<Rightarrow> bool" where
  "is_transport_alive p =
     (if transport_state p = Starting then True else transport_state p \<noteq> NotRunning)"

definition is_server_alive :: "probe \<Rightarrow> bool" where
  "is_server_alive p =
     (if server_state p = Starting then True else server_state p \<noteq> NotRunning)"

text \<open>\<^verbatim>\<open>psutil.STATUS_ZOMBIE\<close> is the string \<^verbatim>\<open>'zombie'\<close>.\<close>

definition STATUS_ZOMBIE :: string where
  "STATUS_ZOMBIE = ''zombie''"

definition is_stdio_alive :: "probe \<Rightarrow> bool" where
  "is_stdio_alive p =
     (if \<not> pid_exists p then False
      else
        (let pid_status = (case process_status p of None \<Rightarrow> [] | Some s \<Rightarrow> s)
         in if pid_status = STATUS_ZOMBIE then False else True))"

text \<open>The three blocks of \<^verbatim>\<open>is_down\<close>, one per failure category, in the order of the
  source.  Each returns whether it found its process down.\<close>

definition check_transport :: "probe \<Rightarrow> client \<Rightarrow> bool \<times> client" where
  "check_transport p c =
     (if transport c \<and> \<not> is_transport_alive p then
        (True,
         if \<not> transport_unresponsive c
         then emit (sig_went_down (language c)) (c\<lparr>transport_unresponsive := True\<rparr>)
         else c)
      else (False, c))"

definition check_server :: "probe \<Rightarrow> client \<Rightarrow> bool \<times> client" where
  "check_server p c =
     (if server c \<and> \<not> is_server_alive p then
        (True,
         if \<not> server_unresponsive c
         then emit (sig_went_down (language c)) (c\<lparr>server_unresponsive := True\<rparr>)
         else c)
      else (False, c))"

definition stdio_pid_truthy :: "client \<Rightarrow> bool" where
  "stdio_pid_truthy c = (case stdio_pid c of None \<Rightarrow> False | Some pid \<Rightarrow> pid \<noteq> 0)"

definition check_stdio :: "probe \<Rightarrow> client \<Rightarrow> bool \<times> client" where
  "check_stdio p c =
     (if stdio_pid_truthy c \<and> \<not> is_stdio_alive p then
        (True,
         if \<not> server_unresponsive c
         then emit (sig_went_down (language c)) (c\<lparr>server_unresponsive := True\<rparr>)
         else c)
      else (False, c))"

definition is_down_at :: "probe \<Rightarrow> client \<Rightarrow> bool \<times> client" where
  "is_down_at p c =
     (let (d1, c1) = check_transport p c;
          (d2, c2) = check_server p c1;
          (d3, c3) = check_stdio p c2
      in (d1 \<or> d2 \<or> d3, c3))"

text \<open>\<^verbatim>\<open>is_down\<close>: one poll of the outside world.\<close>

definition is_down :: "env \<Rightarrow> client \<Rightarrow> bool \<times> client" where
  "is_down e c = is_down_at (procs e (polls c)) (c\<lparr>polls := Suc (polls c)\<rparr>)"

section \<open>Sending\<close>

text \<open>
  The retry loop of \<^verbatim>\<open>send\<close>.  The clock is in milliseconds: \<^verbatim>\<open>timeout = 1\<close> second
  is 1000.  Time passes in two places: an attempt to send takes what the environment says
  (any number of milliseconds, also none), and \<^verbatim>\<open>time.sleep(.1)\<close> takes 100 plus what
  the scheduler adds.  \<^verbatim>\<open>time.time()\<close> after a failed attempt reads the clock as it
  is then.  The clock is taken not to step back; the loop ends because every sleep
  advances it.
\<close>

function send_loop :: "env \<Rightarrow> dict \<Rightarrow> int \<Rightarrow> int \<Rightarrow> client \<Rightarrow> (exn + pyval) \<times> client" where
  "send_loop e msg ident timeout_time c =
     (let c1 = c\<lparr>attempts := Suc (attempts c), now := now c + int (cost e (attempts c))\<rparr> in
      case chan e (attempts c) of
        Sent \<Rightarrow>
          (Inr (PInt ident), c1\<lparr>outbox := outbox c1 @ [msg], request_seq := request_seq c1 + 1\<rparr>)
      | Failed \<Rightarrow> (Inl ZMQError, c1)
      | Again \<Rightarrow>
          if now c1 > timeout_time then (Inr PNone, emit (sig_went_down (language c1)) c1)
          else
            send_loop e msg ident timeout_time
              (c1\<lparr>now := now c1 + 100 + int (lag e (sleeps c1)), sleeps := Suc (sleeps c1)\<rparr>))"
  by pat_completeness auto
termination
  by (relation "measure (\<lambda>(e, msg, ident, timeout_time, c). nat (timeout_time + 1 - now c))") auto

declare send_loop.simps [simp del]

text \<open>The message that \<^verbatim>\<open>send\<close> builds for each kind; a request is entered in
  \<^verbatim>\<open>req_status\<close> under the current value of the counter, before any attempt to send.\<close>

definition build_msg :: "string \<Rightarrow> pyval \<Rightarrow> MessageKind \<Rightarrow> client \<Rightarrow> dict \<times> client" where
  "build_msg method params kind c =
     (case kind of
        REQUEST \<Rightarrow>
          ([(''id'', PInt (request_seq c)), (''method'', PStr method), (''params'', params)],
           c\<lparr>req_status := (req_status c)(KInt (request_seq c) \<mapsto> method)\<rparr>)
      | RESPONSE \<Rightarrow> ([(''id'', PInt (request_seq c)), (''result'', params)], c)
      | NOTIFICATION \<Rightarrow> ([(''method'', PStr method), (''params'', params)], c))"

definition send :: "env \<Rightarrow> string \<Rightarrow> pyval \<Rightarrow> MessageKind \<Rightarrow> client \<Rightarrow> (exn + pyval) \<times> client" where
  "send e method params kind c =
     (let (down, c1) = is_down e c in
      if down then (Inr PNone, c1)
      else
        case py_in (CANCEL e) params of
          Inl ex \<Rightarrow> (Inl ex, c1)
        | Inr True \<Rightarrow> (Inr PNone, c1)
        | Inr False \<Rightarrow>
            (let ident = request_seq c1;
                 (msg, c2) = build_msg method params kind c1;
                 timeout = 1000;
                 start_time = now c2;
                 timeout_time = start_time + timeout
             in send_loop e msg ident timeout_time c2))"

section \<open>Capability negotiation\<close>

text \<open>\<^verbatim>\<open>d.update(other)\<close> stores the items of \<open>other\<close> one by one;
  \<^verbatim>\<open>d[k] = v\<close> is \<^const>\<open>AList.update\<close> and \<^verbatim>\<open>d.pop(k)\<close> of a key that is present
  is \<^const>\<open>AList.delete\<close>.\<close>

definition dict_update :: "dict \<Rightarrow> dict \<Rightarrow> dict" where
  "dict_update d other = foldl (\<lambda>acc (k, v). AList.update k v acc) d other"

text \<open>
  The body of \<^verbatim>\<open>process_server_capabilities\<close> between the two calls that leave the
  file: from the module-level \<^verbatim>\<open>TEXT_DOCUMENT_SYNC_OPTIONS\<close>, the session's
  \<^verbatim>\<open>server_capabilites\<close> and the \<^verbatim>\<open>initialize\<close> response it computes the new
  contents of both dictionaries, and the response as the code leaves it: the assignment
  to \<^verbatim>\<open>server_capabilites['textDocumentSync']\<close> and the \<^verbatim>\<open>pop\<close> act on the
  dictionary that the caller passed in.  The two subscripts are the only places where
  this part can raise, and nothing is written before them.

  In the source \<^verbatim>\<open>server_capabilites['textDocumentSync']\<close> becomes the very object
  \<^verbatim>\<open>TEXT_DOCUMENT_SYNC_OPTIONS\<close>, whose \<^verbatim>\<open>'change'\<close> entry is then assigned.  Within
  one session the only writes to that object are these assignments, each followed by
  storing the object in the merged set again, so the merged set read as a value is what
  is computed here.  The two module-level dictionaries are shared by all clients of a
  process; the model is of one client.
\<close>

definition merge_server_capabilites ::
  "dict \<Rightarrow> dict \<Rightarrow> pyval \<Rightarrow> exn + (dict \<times> dict \<times> pyval)" where
  "merge_server_capabilites tdso caps response =
     (case py_getitem response ''capabilities'' of
        Inl ex \<Rightarrow> Inl ex
      | Inr capabilities \<Rightarrow>
          (case py_getitem capabilities ''textDocumentSync'' of
             Inl ex \<Rightarrow> Inl ex
           | Inr sync \<Rightarrow>
               (case (response, capabilities) of
                  (PDict r, PDict d) \<Rightarrow>
                    (let (d1, tdso1) =
                           (if isinstance_int sync then
                              (let kind = sync;
                                   tdso' = AList.update ''change'' kind tdso
                               in (AList.update ''textDocumentSync'' (PDict tdso') d, tdso'))
                            else (d, tdso));
                         d2 = (if map_of d1 ''textDocumentSync'' = Some PNone
                               then AList.delete ''textDocumentSync'' d1 else d1)
                     in Inr (dict_update caps d2, tdso1,
                             PDict (AList.update ''capabilities'' (PDict d2) r)))
                | _ \<Rightarrow> Inl TypeError)))"

definition process_server_capabilities :: "env \<Rightarrow> pyval \<Rightarrow> client \<Rightarrow> exn option \<times> client" where
  "process_server_capabilities e response c =
     (case call_external e ''send_plugin_configurations'' [plugin_configurations c] c of
        (Some ex, c1) \<Rightarrow> (Some ex, c1)
      | (None, c1) \<Rightarrow>
          (let c2 = c1\<lparr>initialized := True\<rparr> in
           case merge_server_capabilites (TEXT_DOCUMENT_SYNC_OPTIONS c2) (server_capabilites c2)
                  response of
             Inl ex \<Rightarrow> (Some ex, c2)
           | Inr (caps, tdso, response') \<Rightarrow>
               (let c3 = c2\<lparr>server_capabilites := caps, TEXT_DOCUMENT_SYNC_OPTIONS := tdso\<rparr>;
                    c4 = emit (sig_initialize (server_capabilites c3) (language c3)) c3
                in call_external e ''initialized_call'' [] c4)))"

text \<open>\<^verbatim>\<open>getattr(self, handler_name)(args)\<close>: the two handlers defined without a
  sending decorator in this file, and everything else outside.\<close>

definition call_method :: "env \<Rightarrow> string \<Rightarrow> pyval list \<Rightarrow> client \<Rightarrow> exn option \<times> client" where
  "call_method e name args c =
     (if name = ''process_server_capabilities'' then
        (case args of [] \<Rightarrow> (Some TypeError, c) | a # _ \<Rightarrow> process_server_capabilities e a c)
      else if name = ''handle_shutdown'' then
        (case args of [] \<Rightarrow> (Some TypeError, c) | a # _ \<Rightarrow> (None, c\<lparr>ready_to_close := True\<rparr>))
      else call_external e name args c)"

section \<open>Receiving\<close>

text \<open>Calling a stored value: only a callable can be called.\<close>

definition call_value :: "env \<Rightarrow> pyval \<Rightarrow> pyval list \<Rightarrow> client \<Rightarrow> exn option \<times> client" where
  "call_value e f args c =
     (case f of PCallable h \<Rightarrow> call_callback e h args c | _ \<Rightarrow> (Some TypeError, c))"

text \<open>The text for the error report dialog, computed from \<^verbatim>\<open>resp['error']\<close>;
  \<open>None\<close> when there is no traceback.\<close>

definition error_report :: "pyval \<Rightarrow> exn + string option" where
  "error_report err =
     (case py_get err ''message'' (PStr []) of
        Inl ex \<Rightarrow> Inl ex
      | Inr message \<Rightarrow>
          (case py_get err ''data'' (PDict []) of
             Inl ex \<Rightarrow> Inl ex
           | Inr data \<Rightarrow>
               (case py_get data ''traceback'' PNone of
                  Inl ex \<Rightarrow> Inl ex
                | Inr traceback \<Rightarrow>
                    if traceback \<noteq> PNone then
                      (case py_join traceback of
                         Inl ex \<Rightarrow> Inl ex
                       | Inr tb \<Rightarrow>
                           (case message of
                              PStr m \<Rightarrow> Inr (Some (tb @ [CHR 0x0A] @ m))
                            | _ \<Rightarrow> Inl TypeError))
                    else Inr None)))"

definition on_error :: "env \<Rightarrow> pyval \<Rightarrow> dict \<Rightarrow> client \<Rightarrow> exn option \<times> client" where
  "on_error e err resp c =
     (if language c = ''python'' then
        (case (if debug_level e > 0 \<or> DEV e then error_report err else Inr None) of
           Inl ex \<Rightarrow> (Some ex, c)
         | Inr report \<Rightarrow>
             (let c1 = (case report of None \<Rightarrow> c | Some tb \<Rightarrow> emit (sig_server_error tb) c) in
              case map_of resp ''id'' of
                None \<Rightarrow> (Some KeyError, c1)
              | Some req_id \<Rightarrow>
                  (case py_key req_id of
                     None \<Rightarrow> (Some TypeError, c1)
                   | Some k \<Rightarrow>
                       (case req_reply c1 k of
                          None \<Rightarrow> (None, c1)
                        | Some cb \<Rightarrow>
                            call_value e cb [PNone, PDict [(''params'', PList [])]] c1))))
      else (None, c))"

text \<open>\<^verbatim>\<open>x in self.handler_registry\<close> and the lookup: the keys of the registry are
  method names.\<close>

definition registry_lookup :: "(string \<rightharpoonup> string) \<Rightarrow> key \<Rightarrow> string option" where
  "registry_lookup reg k = (case k of KStr s \<Rightarrow> reg s | _ \<Rightarrow> None)"

definition on_method :: "env \<Rightarrow> pyval \<Rightarrow> dict \<Rightarrow> client \<Rightarrow> exn option \<times> client" where
  "on_method e m resp c =
     (case py_first m of
        Inl ex \<Rightarrow> (Some ex, c)
      | Inr ch \<Rightarrow>
          if ch \<noteq> PStr ''$'' then
            (case (case map_of resp ''id'' of
                     None \<Rightarrow> Inr c
                   | Some i \<Rightarrow>
                       (case py_int i of
                          Inl ex \<Rightarrow> Inl ex
                        | Inr n \<Rightarrow> Inr (c\<lparr>request_seq := n\<rparr>))) of
               Inl ex \<Rightarrow> (Some ex, c)
             | Inr c1 \<Rightarrow>
                 (case py_key m of
                    None \<Rightarrow> (Some TypeError, c1)
                  | Some k \<Rightarrow>
                      (case registry_lookup (handler_registry e) k of
                         None \<Rightarrow> (None, c1)
                       | Some handler_name \<Rightarrow>
                           (case map_of resp ''params'' of
                              None \<Rightarrow> (Some KeyError, c1)
                            | Some ps \<Rightarrow> call_method e handler_name [ps] c1))))
          else (None, c))"

definition on_result :: "env \<Rightarrow> pyval \<Rightarrow> dict \<Rightarrow> client \<Rightarrow> exn option \<times> client" where
  "on_result e r resp c =
     (if r \<noteq> PNone then
        (case map_of resp ''id'' of
           None \<Rightarrow> (Some KeyError, c)
         | Some req_id \<Rightarrow>
             (case py_key req_id of
                None \<Rightarrow> (Some TypeError, c)
              | Some k \<Rightarrow>
                  (case req_status c k of
                     None \<Rightarrow> (None, c)
                   | Some req_type \<Rightarrow>
                       (case handler_registry e req_type of
                          None \<Rightarrow> (None, c)
                        | Some handler_name \<Rightarrow>
                            (case call_method e handler_name [r, req_id] c of
                               (Some ex, c1) \<Rightarrow> (Some ex, c1)
                             | (None, c1) \<Rightarrow>
                                 (case req_status c1 k of
                                    None \<Rightarrow> (Some KeyError, c1)
                                  | Some t \<Rightarrow>
                                      (let c2 = c1\<lparr>req_status := (req_status c1)(k := None)\<rparr>
                                       in (None,
                                           if req_reply c2 k \<noteq> None
                                           then c2\<lparr>req_reply := (req_reply c2)(k := None)\<rparr>
                                           else c2))))))))
      else (None, c))"

text \<open>One pass of the body of the receive loop on a message \<open>resp\<close> (a dictionary, as
  the wire format has it).\<close>

definition process_msg :: "env \<Rightarrow> dict \<Rightarrow> client \<Rightarrow> exn option \<times> client" where
  "process_msg e resp c =
     (case map_of resp ''error'' of
        Some err \<Rightarrow> on_error e err resp c
      | None \<Rightarrow>
          (case map_of resp ''method'' of
             Some m \<Rightarrow> on_method e m resp c
           | None \<Rightarrow>
               (case map_of resp ''result'' of
                  Some r \<Rightarrow> on_result e r resp c
                | None \<Rightarrow> (None, c))))"

text \<open>The loop of \<^verbatim>\<open>on_msg_received\<close> over the messages that \<^verbatim>\<open>zmq_in_socket\<close> holds:
  \<^verbatim>\<open>RuntimeError\<close> is passed over, \<^verbatim>\<open>zmq.ZMQError\<close> (also raised by
  \<^verbatim>\<open>recv_pyobj\<close> when nothing is left) re-enables the notifier and returns, any other
  exception leaves the method.\<close>

fun drain :: "env \<Rightarrow> dict list \<Rightarrow> client \<Rightarrow> exn option \<times> client" where
  "drain e [] c = (None, c\<lparr>notifier_enabled := True\<rparr>)"
| "drain e (resp # rest) c =
     (case process_msg e resp c of
        (None, c1) \<Rightarrow> drain e rest c1
      | (Some ex, c1) \<Rightarrow>
          if ex = RuntimeError then drain e rest c1
          else if ex = ZMQError then (None, c1\<lparr>notifier_enabled := True\<rparr>)
          else (Some ex, c1))"

definition on_msg_received :: "env \<Rightarrow> dict list \<Rightarrow> client \<Rightarrow> exn option \<times> client" where
  "on_msg_received e inbox c = drain e inbox (c\<lparr>notifier_enabled := False\<rparr>)"

section \<open>Requests of the application\<close>

text \<open>The sender is a decorated method outside this file; it is taken not to modify
  the caller's \<open>params\<close>.\<close>

definition perform_request :: "env \<Rightarrow> string \<Rightarrow> pyval \<Rightarrow> client \<Rightarrow> (exn + pyval) \<times> client" where
  "perform_request e method params c =
     (case sender_registry e method of
        None \<Rightarrow> (Inr PNone, c)
      | Some handler_name \<Rightarrow>
          (case call_sender e handler_name params c of
             (Inl ex, c1) \<Rightarrow> (Inl ex, c1)
           | (Inr ident, c1) \<Rightarrow>
               (case py_in ''response_callback'' params of
                  Inl ex \<Rightarrow> (Inl ex, c1)
                | Inr False \<Rightarrow> (Inr ident, c1)
                | Inr True \<Rightarrow>
                    (case py_getitem params ''requires_response'' of
                       Inl ex \<Rightarrow> (Inl ex, c1)
                     | Inr flag \<Rightarrow>
                         if py_truthy flag then
                           (case py_getitem params ''response_callback'' of
                              Inl ex \<Rightarrow> (Inl ex, c1)
                            | Inr cb \<Rightarrow>
                                (case py_key ident of
                                   None \<Rightarrow> (Inl TypeError, c1)
                                 | Some k \<Rightarrow>
                                     (Inr ident, c1\<lparr>req_reply := (req_reply c1)(k \<mapsto> cb)\<rparr>)))
                         else (Inr ident, c1)))))"

section \<open>Sessions\<close>

text \<open>
  The session that \<^verbatim>\<open>LSPClient.__init__\<close> builds, for a language tag, the imported
  constants \<^verbatim>\<open>SERVER_CAPABILITES\<close> and \<^verbatim>\<open>TEXT_DOCUMENT_SYNC_OPTIONS\<close>, and the
  \<^verbatim>\<open>'configurations'\<close> entry of the server settings.  No process exists yet, the
  counter is 1 and both tables are empty.  \<^verbatim>\<open>__init__\<close> stores the two module-level
  dictionaries themselves, so that all clients of one process share them; the session
  here is the only client.
\<close>

definition new_client :: "string \<Rightarrow> dict \<Rightarrow> dict \<Rightarrow> pyval \<Rightarrow> client" where
  "new_client lang SERVER_CAPABILITES tdso configurations =
     \<lparr>language = lang, initialized = False, ready_to_close = False, request_seq = 1,
      req_status = Map.empty, req_reply = Map.empty, transport = False, server = False,
      stdio_pid = None, transport_unresponsive = False, server_unresponsive = False,
      plugin_configurations = configurations, server_capabilites = SERVER_CAPABILITES,
      TEXT_DOCUMENT_SYNC_OPTIONS = tdso, notifier_enabled = False, emitted = [], outbox = [],
      now = 0, polls = 0, attempts = 0, sleeps = 0\<rparr>"





text \<open>The liveness poll called \<open>n\<close> times in a row.\<close>

fun poll_n :: "env \<Rightarrow> nat \<Rightarrow> client \<Rightarrow> client" where
  "poll_n e 0 c = c"
| "poll_n e (Suc n) c = poll_n e n (snd (is_down e c))"

text \<open>Whether one of the next \<open>n\<close> polls finds the process of a failure category
  down: the transport process, the server process, the stdio server.\<close>

definition transport_seen_down :: "env \<Rightarrow> nat \<Rightarrow> client \<Rightarrow> bool" where
  "transport_seen_down e n c =
     (transport c \<and> list_ex (\<lambda>i. \<not> is_transport_alive (procs e (polls c + i))) [0..<n])"

definition server_seen_down :: "env \<Rightarrow> nat \<Rightarrow> client \<Rightarrow> bool" where
  "server_seen_down e n c =
     (server c \<and> list_ex (\<lambda>i. \<not> is_server_alive (procs e (polls c + i))) [0..<n])"

definition stdio_seen_down :: "env \<Rightarrow> nat \<Rightarrow> client \<Rightarrow> bool" where
  "stdio_seen_down e n c =
     (stdio_pid_truthy c \<and> list_ex (\<lambda>i. \<not> is_stdio_alive (procs e (polls c + i))) [0..<n])"



text \<open>
  A step keeps the ids when it leaves the counter alone and adds no key to
  \<^verbatim>\<open>req_status\<close>.  The calls that leave the file are quiet when they keep the ids:
  the handlers of the provider mix-in and the callbacks of the application do not send,
  do not assign the counter and do not enter requests.
\<close>

definition ids_kept :: "client \<Rightarrow> client \<Rightarrow> bool" where
  "ids_kept c c1 \<longleftrightarrow>
     request_seq c1 = request_seq c \<and> (\<forall>k. req_status c1 k \<noteq> None \<longrightarrow> req_status c k \<noteq> None)"


text \<open>The fields that neither a liveness poll nor the retry loop may touch.\<close>

definition same_tables :: "client \<Rightarrow> client \<Rightarrow> bool" where
  "same_tables c c1 \<longleftrightarrow>
     request_seq c1 = request_seq c \<and> req_status c1 = req_status c \<and>
     req_reply c1 = req_reply c \<and> outbox c1 = outbox c \<and> attempts c1 = attempts c \<and>
     now c1 = now c \<and> sleeps c1 = sleeps c \<and> language c1 = language c \<and>
     transport c1 = transport c \<and> server c1 = server c \<and> stdio_pid c1 = stdio_pid c \<and>
     server_capabilites c1 = server_capabilites c"

text \<open>An environment for examples: production mode, no registered method, external
  calls that do nothing, a callable that records the arguments it was called with in the
  outbox of the session, every process running, a channel that accepts every message at
  once and a clock without oversleep.\<close>

definition quiet_env :: env where
  "quiet_env =
     \<lparr>DEV = False, debug_level = 0, CANCEL = ''lsp-cancel'',
      handler_registry = Map.empty, sender_registry = Map.empty,
      call_external = (\<lambda>name args c. (None, c)),
      call_sender = (\<lambda>name params c. (Inr PNone, c)),
      call_callback = (\<lambda>h args c. (None, c\<lparr>outbox := outbox c @ [[(''callback'', PList args)]]\<rparr>)),
      procs = (\<lambda>n. \<lparr>transport_state = Running, server_state = Running, pid_exists = True,
                     process_status = Some ''running''\<rparr>),
      chan = (\<lambda>n. Sent), cost = (\<lambda>n. 0), lag = (\<lambda>n. 0)\<rparr>"

text \<open>A started session with one request in flight: \<^verbatim>\<open>textDocument/hover\<close> was
  sent with id 1 and a callable was registered for its reply.\<close>

definition hover_pending :: "string \<Rightarrow> client" where
  "hover_pending lang =
     (new_client lang [] [] (PDict []))
       \<lparr>transport := True, notifier_enabled := True, request_seq := 2,
        req_status := [KInt 1 \<mapsto> ''textDocument/hover''],
        req_reply := [KInt 1 \<mapsto> PCallable 0]\<rparr>"

text \<open>An environment with one registered sender, which does what a method decorated with
  \<^verbatim>\<open>send_request\<close> does: it sends its params as a request.\<close>

definition sender_env :: env where
  "sender_env =
     quiet_env
       \<lparr>sender_registry := [''textDocument/hover'' \<mapsto> ''hover_request''],
        call_sender := (\<lambda>name params c. send quiet_env ''textDocument/hover'' params REQUEST c)\<rparr>"

section \<open>Liveness polls and the retry loop leave the tables alone\<close>

lemma same_tables_refl: "same_tables c c"
  by (simp add: same_tables_def)

lemma same_tables_trans: "same_tables a b \<Longrightarrow> same_tables b c \<Longrightarrow> same_tables a c"
  by (simp add: same_tables_def)

lemma check_transport_same: "same_tables c (snd (check_transport p c))"
  by (simp add: check_transport_def same_tables_def emit_def)

lemma check_server_same: "same_tables c (snd (check_server p c))"
  by (simp add: check_server_def same_tables_def emit_def)

lemma check_stdio_same: "same_tables c (snd (check_stdio p c))"
  by (simp add: check_stdio_def same_tables_def emit_def)

lemma is_down_at_snd:
  "snd (is_down_at p c) = snd (check_stdio p (snd (check_server p (snd (check_transport p c)))))"
  by (simp add: is_down_at_def split_beta)

lemma is_down_at_fst:
  "fst (is_down_at p c) =
     (fst (check_transport p c) \<or> fst (check_server p (snd (check_transport p c))) \<or>
      fst (check_stdio p (snd (check_server p (snd (check_transport p c))))))"
  by (simp add: is_down_at_def split_beta)

lemma is_down_at_same: "same_tables c (snd (is_down_at p c))"
  unfolding is_down_at_snd
  by (rule same_tables_trans [OF check_transport_same
        same_tables_trans [OF check_server_same check_stdio_same]])

lemma is_down_same: "same_tables c (snd (is_down e c))"
proof -
  have "same_tables c (c\<lparr>polls := Suc (polls c)\<rparr>)"
    by (simp add: same_tables_def)
  then show ?thesis
    unfolding is_down_def by (rule same_tables_trans [OF _ is_down_at_same])
qed

lemma is_down_fields:
  "request_seq (snd (is_down e c)) = request_seq c"
  "req_status (snd (is_down e c)) = req_status c"
  "req_reply (snd (is_down e c)) = req_reply c"
  "outbox (snd (is_down e c)) = outbox c"
  "attempts (snd (is_down e c)) = attempts c"
  "now (snd (is_down e c)) = now c"
  "sleeps (snd (is_down e c)) = sleeps c"
  "language (snd (is_down e c)) = language c"
  using is_down_same [of c e] by (simp_all add: same_tables_def)

lemma send_loop_result:
  "send_loop e msg ident tt c = (r, c') \<Longrightarrow>
     req_status c' = req_status c \<and> req_reply c' = req_reply c \<and> language c' = language c \<and>
     ((r = Inr (PInt ident) \<and> request_seq c' = request_seq c + 1 \<and> outbox c' = outbox c @ [msg]
        \<and> emitted c' = emitted c)
      \<or> (r = Inr PNone \<and> request_seq c' = request_seq c \<and> outbox c' = outbox c
        \<and> emitted c' = emitted c @ [sig_went_down (language c)])
      \<or> (r = Inl ZMQError \<and> request_seq c' = request_seq c \<and> outbox c' = outbox c
        \<and> emitted c' = emitted c))"
proof (induction e msg ident tt c arbitrary: r c' rule: send_loop.induct)
  case (1 e msg ident timeout_time c)
  show ?case
  proof (cases "chan e (attempts c)")
    case Sent
    with "1.prems" show ?thesis
      by (auto simp add: send_loop.simps [of e msg ident timeout_time c])
  next
    case Failed
    with "1.prems" show ?thesis
      by (auto simp add: send_loop.simps [of e msg ident timeout_time c])
  next
    case Again
    show ?thesis
    proof (cases "now c + int (cost e (attempts c)) > timeout_time")
      case True
      with Again "1.prems" show ?thesis
        by (auto simp add: send_loop.simps [of e msg ident timeout_time c] emit_def)
    next
      case False
      with Again "1.prems" "1.IH" [OF refl Again, of r c'] show ?thesis
        by (simp add: send_loop.simps [of e msg ident timeout_time c])
    qed
  qed
qed

lemma build_msg_snd:
  "snd (build_msg method params kind c) =
     (if kind = REQUEST then c\<lparr>req_status := (req_status c)(KInt (request_seq c) \<mapsto> method)\<rparr>
      else c)"
  by (cases kind) (simp_all add: build_msg_def)

lemma build_msg_fst:
  "request_seq c1 = request_seq c \<Longrightarrow>
     fst (build_msg method params kind c1) = fst (build_msg method params kind c)"
  by (cases kind) (simp_all add: build_msg_def)

lemma build_msg_frame:
  "attempts (snd (build_msg method params kind c)) = attempts c"
  "now (snd (build_msg method params kind c)) = now c"
  "sleeps (snd (build_msg method params kind c)) = sleeps c"
  "request_seq (snd (build_msg method params kind c)) = request_seq c"
  "outbox (snd (build_msg method params kind c)) = outbox c"
  "emitted (snd (build_msg method params kind c)) = emitted c"
  "language (snd (build_msg method params kind c)) = language c"
  by (simp_all add: build_msg_snd)

lemma send_cases:
  "send e method params kind c =
     (if fst (is_down e c) then (Inr PNone, snd (is_down e c))
      else
        case py_in (CANCEL e) params of
          Inl ex \<Rightarrow> (Inl ex, snd (is_down e c))
        | Inr True \<Rightarrow> (Inr PNone, snd (is_down e c))
        | Inr False \<Rightarrow>
            send_loop e (fst (build_msg method params kind (snd (is_down e c))))
              (request_seq (snd (is_down e c)))
              (now (snd (build_msg method params kind (snd (is_down e c)))) + 1000)
              (snd (build_msg method params kind (snd (is_down e c)))))"
  by (simp add: send_def split_beta Let_def split: sum.splits bool.splits)

text \<open>The retry loop succeeds when the channel takes the message at some attempt, the
  attempts before it found the queue full, and each of those ended within the deadline.\<close>

lemma send_loop_succeeds:
  "chan e (attempts c + k) = Sent \<Longrightarrow>
   (\<forall>j<k. chan e (attempts c + j) = Again \<and>
      now c + (\<Sum>i<j. int (cost e (attempts c + i)) + 100 + int (lag e (sleeps c + i))) +
        int (cost e (attempts c + j)) \<le> tt) \<Longrightarrow>
   fst (send_loop e msg ident tt c) = Inr (PInt ident)"
proof (induction k arbitrary: c)
  case 0
  then show ?case
    by (simp add: send_loop.simps [of e msg ident tt c])
next
  case (Suc k)
  let ?c2 = "c\<lparr>attempts := Suc (attempts c),
               now := now c + int (cost e (attempts c)) + 100 + int (lag e (sleeps c)),
               sleeps := Suc (sleeps c)\<rparr>"
  from Suc.prems(2) have ag: "chan e (attempts c) = Again"
    and t0: "now c + int (cost e (attempts c)) \<le> tt"
    using Suc.prems(2) [rule_format, of 0] by simp_all
  have step: "send_loop e msg ident tt c = send_loop e msg ident tt ?c2"
    using ag t0 by (simp add: send_loop.simps [of e msg ident tt c])
  have a: "chan e (attempts ?c2 + k) = Sent"
    using Suc.prems(1) by simp
  have b: "\<forall>j<k. chan e (attempts ?c2 + j) = Again \<and>
      now ?c2 + (\<Sum>i<j. int (cost e (attempts ?c2 + i)) + 100 + int (lag e (sleeps ?c2 + i))) +
        int (cost e (attempts ?c2 + j)) \<le> tt"
  proof (intro allI impI)
    fix j assume j: "j < k"
    with Suc.prems(2) [rule_format, of "Suc j"]
    have "chan e (attempts c + Suc j) = Again"
      and "now c + (\<Sum>i<Suc j. int (cost e (attempts c + i)) + 100 + int (lag e (sleeps c + i))) +
        int (cost e (attempts c + Suc j)) \<le> tt"
      by simp_all
    then show "chan e (attempts ?c2 + j) = Again \<and>
      now ?c2 + (\<Sum>i<j. int (cost e (attempts ?c2 + i)) + 100 + int (lag e (sleeps ?c2 + i))) +
        int (cost e (attempts ?c2 + j)) \<le> tt"
      by (simp add: sum.lessThan_Suc_shift del: sum.lessThan_Suc)
  qed
  from Suc.IH [OF a b] step show ?case
    by simp
qed

text \<open>The definitions to unfold when a send or a poll is run on a concrete session.\<close>

lemmas eval_send = send_cases is_down_def is_down_at_def check_transport_def check_server_def
  check_stdio_def is_transport_alive_def is_server_alive_def is_stdio_alive_def
  stdio_pid_truthy_def build_msg_def emit_def quiet_env_def new_client_def hover_pending_def

section \<open>A successful send\<close>

text \<open>
  Claim C9.  A send of any kind succeeds when the server is up, the params do not hold
  the cancel sentinel and the channel accepts the message at some attempt, the attempts
  before it having found the queue full and ended within one second of the start: it then
  returns the value that the counter had before the call.  Every successful send, at the
  first attempt or after retries, returns the value that the counter had before the call,
  advances the counter by exactly one and puts exactly its message on the channel,
  whatever the kind of the message: notifications and responses take their ids from the
  same counter as requests.  Only a request is entered in \<^verbatim>\<open>req_status\<close>, under the
  returned id and with its method.
\<close>

theorem send_success_advances_counter:
  "(\<forall>k. \<not> fst (is_down e c) \<and> py_in (CANCEL e) params = Inr False \<and>
        chan e (attempts c + k) = Sent \<and>
        (\<forall>j<k. chan e (attempts c + j) = Again \<and>
           (\<Sum>i<j. int (cost e (attempts c + i)) + 100 + int (lag e (sleeps c + i))) +
             int (cost e (attempts c + j)) \<le> 1000) \<longrightarrow>
      fst (send e method params kind c) = Inr (PInt (request_seq c))) \<and>
   (\<forall>n. fst (send e method params kind c) = Inr (PInt n) \<longrightarrow>
      n = request_seq c \<and>
      request_seq (snd (send e method params kind c)) = request_seq c + 1 \<and>
      outbox (snd (send e method params kind c)) =
        outbox c @ [fst (build_msg method params kind c)] \<and>
      req_status (snd (send e method params kind c)) =
        (if kind = REQUEST then (req_status c)(KInt (request_seq c) \<mapsto> method)
         else req_status c))"
proof -
  let ?c1 = "snd (is_down e c)"
  let ?c2 = "snd (build_msg method params kind ?c1)"
  let ?msg = "fst (build_msg method params kind ?c1)"
  have first: "fst (send e method params kind c) = Inr (PInt (request_seq c))"
    if nd: "\<not> fst (is_down e c)" and nc: "py_in (CANCEL e) params = Inr False"
      and acc: "chan e (attempts c + k) = Sent"
      and full: "\<forall>j<k. chan e (attempts c + j) = Again \<and>
           (\<Sum>i<j. int (cost e (attempts c + i)) + 100 + int (lag e (sleeps c + i))) +
             int (cost e (attempts c + j)) \<le> 1000"
    for k
  proof -
    from nd nc have eq: "send e method params kind c =
        send_loop e ?msg (request_seq ?c1) (now ?c2 + 1000) ?c2"
      by (simp add: send_cases)
    have f: "attempts ?c2 = attempts c" "sleeps ?c2 = sleeps c"
      by (simp_all add: build_msg_frame is_down_fields)
    from acc have a: "chan e (attempts ?c2 + k) = Sent"
      by (simp add: f)
    from full have b: "\<forall>j<k. chan e (attempts ?c2 + j) = Again \<and>
        now ?c2 + (\<Sum>i<j. int (cost e (attempts ?c2 + i)) + 100 + int (lag e (sleeps ?c2 + i))) +
          int (cost e (attempts ?c2 + j)) \<le> now ?c2 + 1000"
      by (simp add: f)
    from send_loop_succeeds [OF a b]
    have "fst (send_loop e ?msg (request_seq ?c1) (now ?c2 + 1000) ?c2) =
        Inr (PInt (request_seq ?c1))" .
    with eq show ?thesis
      by (simp add: is_down_fields)
  qed
  have every: "n = request_seq c \<and>
      request_seq (snd (send e method params kind c)) = request_seq c + 1 \<and>
      outbox (snd (send e method params kind c)) =
        outbox c @ [fst (build_msg method params kind c)] \<and>
      req_status (snd (send e method params kind c)) =
        (if kind = REQUEST then (req_status c)(KInt (request_seq c) \<mapsto> method)
         else req_status c)"
    if ok: "fst (send e method params kind c) = Inr (PInt n)" for n
  proof -
    from ok have nd: "\<not> fst (is_down e c)"
      by (auto simp add: send_cases)
    from ok nd have nc: "py_in (CANCEL e) params = Inr False"
      by (auto simp add: send_cases split: sum.splits bool.splits)
    from nd nc have eq: "send e method params kind c =
        send_loop e ?msg (request_seq ?c1) (now ?c2 + 1000) ?c2"
      by (simp add: send_cases)
    obtain r c' where rc: "send_loop e ?msg (request_seq ?c1) (now ?c2 + 1000) ?c2 = (r, c')"
      by (cases "send_loop e ?msg (request_seq ?c1) (now ?c2 + 1000) ?c2")
    from ok eq rc have r: "r = Inr (PInt n)" by simp
    from send_loop_result [OF rc] r
    have "n = request_seq ?c1" "request_seq c' = request_seq ?c2 + 1"
      "req_status c' = req_status ?c2" "outbox c' = outbox ?c2 @ [?msg]"
      by auto
    moreover have "snd (send e method params kind c) = c'"
      by (simp add: eq rc)
    moreover have "request_seq ?c2 = request_seq c" "outbox ?c2 = outbox c"
      by (simp_all add: build_msg_frame is_down_fields)
    moreover have "req_status ?c2 =
        (if kind = REQUEST then (req_status c)(KInt (request_seq c) \<mapsto> method) else req_status c)"
      by (simp add: build_msg_snd is_down_fields)
    moreover have "?msg = fst (build_msg method params kind c)"
      by (rule build_msg_fst) (simp add: is_down_fields)
    ultimately show ?thesis
      by (simp add: is_down_fields)
  qed
  from first every show ?thesis
    by blast
qed

text \<open>
  In a fresh session a request, a notification and a response each get id 1 and leave the
  counter at 2, and each puts its message on the channel; only the request is entered in
  the table.  A request that the channel accepts at the second attempt does the same.
\<close>

theorem send_success_advances_counter_witness:
  "(fst (send quiet_env ''textDocument/hover'' (PDict []) REQUEST
        (new_client ''python'' [] [] (PDict []))) = Inr (PInt 1) \<and>
    request_seq (snd (send quiet_env ''textDocument/hover'' (PDict []) REQUEST
        (new_client ''python'' [] [] (PDict [])))) = 2 \<and>
    outbox (snd (send quiet_env ''textDocument/hover'' (PDict []) REQUEST
        (new_client ''python'' [] [] (PDict [])))) =
      [[(''id'', PInt 1), (''method'', PStr ''textDocument/hover''), (''params'', PDict [])]] \<and>
    req_status (snd (send quiet_env ''textDocument/hover'' (PDict []) REQUEST
        (new_client ''python'' [] [] (PDict [])))) (KInt 1) = Some ''textDocument/hover'') \<and>
   (fst (send quiet_env ''textDocument/didOpen'' (PDict []) NOTIFICATION
        (new_client ''python'' [] [] (PDict []))) = Inr (PInt 1) \<and>
    request_seq (snd (send quiet_env ''textDocument/didOpen'' (PDict []) NOTIFICATION
        (new_client ''python'' [] [] (PDict [])))) = 2 \<and>
    outbox (snd (send quiet_env ''textDocument/didOpen'' (PDict []) NOTIFICATION
        (new_client ''python'' [] [] (PDict [])))) =
      [[(''method'', PStr ''textDocument/didOpen''), (''params'', PDict [])]] \<and>
    req_status (snd (send quiet_env ''textDocument/didOpen'' (PDict []) NOTIFICATION
        (new_client ''python'' [] [] (PDict [])))) (KInt 1) = None) \<and>
   (fst (send quiet_env ''workspace/configuration'' (PList []) RESPONSE
        (new_client ''python'' [] [] (PDict []))) = Inr (PInt 1) \<and>
    request_seq (snd (send quiet_env ''workspace/configuration'' (PList []) RESPONSE
        (new_client ''python'' [] [] (PDict [])))) = 2 \<and>
    outbox (snd (send quiet_env ''workspace/configuration'' (PList []) RESPONSE
        (new_client ''python'' [] [] (PDict [])))) =
      [[(''id'', PInt 1), (''result'', PList [])]] \<and>
    req_status (snd (send quiet_env ''workspace/configuration'' (PList []) RESPONSE
        (new_client ''python'' [] [] (PDict [])))) (KInt 1) = None) \<and>
   (fst (send (quiet_env\<lparr>chan := (\<lambda>n. if n = 0 then Again else Sent)\<rparr>)
        ''textDocument/hover'' (PDict []) REQUEST
        (new_client ''python'' [] [] (PDict []))) = Inr (PInt 1) \<and>
    request_seq (snd (send (quiet_env\<lparr>chan := (\<lambda>n. if n = 0 then Again else Sent)\<rparr>)
        ''textDocument/hover'' (PDict []) REQUEST
        (new_client ''python'' [] [] (PDict [])))) = 2 \<and>
    attempts (snd (send (quiet_env\<lparr>chan := (\<lambda>n. if n = 0 then Again else Sent)\<rparr>)
        ''textDocument/hover'' (PDict []) REQUEST
        (new_client ''python'' [] [] (PDict [])))) = 2)"
proof -
  let ?c = "new_client ''python'' [] [] (PDict [])"
  let ?e = "quiet_env\<lparr>chan := (\<lambda>n. if n = 0 then Again else Sent)\<rparr>"
  have h: "\<not> fst (is_down quiet_env ?c) \<and> py_in (CANCEL quiet_env) (PDict []) = Inr False \<and>
      chan quiet_env (attempts ?c + 0) = Sent \<and>
      (\<forall>j<0. chan quiet_env (attempts ?c + j) = Again \<and>
         (\<Sum>i<j. int (cost quiet_env (attempts ?c + i)) + 100 +
                  int (lag quiet_env (sleeps ?c + i))) +
           int (cost quiet_env (attempts ?c + j)) \<le> 1000)"
    by (simp add: eval_send)
  have hl: "\<not> fst (is_down quiet_env ?c) \<and> py_in (CANCEL quiet_env) (PList []) = Inr False \<and>
      chan quiet_env (attempts ?c + 0) = Sent \<and>
      (\<forall>j<0. chan quiet_env (attempts ?c + j) = Again \<and>
         (\<Sum>i<j. int (cost quiet_env (attempts ?c + i)) + 100 +
                  int (lag quiet_env (sleeps ?c + i))) +
           int (cost quiet_env (attempts ?c + j)) \<le> 1000)"
    by (simp add: eval_send)
  have hk: "\<not> fst (is_down ?e ?c) \<and> py_in (CANCEL ?e) (PDict []) = Inr False \<and>
      chan ?e (attempts ?c + 1) = Sent \<and>
      (\<forall>j<1. chan ?e (attempts ?c + j) = Again \<and>
         (\<Sum>i<j. int (cost ?e (attempts ?c + i)) + 100 + int (lag ?e (sleeps ?c + i))) +
           int (cost ?e (attempts ?c + j)) \<le> 1000)"
    by (simp add: eval_send)
  have s: "request_seq ?c = 1" "outbox ?c = []" "req_status ?c = Map.empty"
    by (simp_all add: new_client_def)
  note rq = send_success_advances_counter
    [of quiet_env ?c "PDict []" "''textDocument/hover''" REQUEST]
  note nt = send_success_advances_counter
    [of quiet_env ?c "PDict []" "''textDocument/didOpen''" NOTIFICATION]
  note rs = send_success_advances_counter
    [of quiet_env ?c "PList []" "''workspace/configuration''" RESPONSE]
  note rt = send_success_advances_counter
    [of ?e ?c "PDict []" "''textDocument/hover''" REQUEST]
  have r1: "fst (send quiet_env ''textDocument/hover'' (PDict []) REQUEST ?c) = Inr (PInt 1)"
    using rq [THEN conjunct1, rule_format, OF h] by (simp add: s)
  have 1: "request_seq (snd (send quiet_env ''textDocument/hover'' (PDict []) REQUEST ?c)) = 2 \<and>
      outbox (snd (send quiet_env ''textDocument/hover'' (PDict []) REQUEST ?c)) =
        [[(''id'', PInt 1), (''method'', PStr ''textDocument/hover''), (''params'', PDict [])]] \<and>
      req_status (snd (send quiet_env ''textDocument/hover'' (PDict []) REQUEST ?c)) (KInt 1) =
        Some ''textDocument/hover''"
    using rq [THEN conjunct2, rule_format, OF r1] by (simp add: s build_msg_def)
  have r2: "fst (send quiet_env ''textDocument/didOpen'' (PDict []) NOTIFICATION ?c) = Inr (PInt 1)"
    using nt [THEN conjunct1, rule_format, OF h] by (simp add: s)
  have 2: "request_seq (snd (send quiet_env ''textDocument/didOpen'' (PDict []) NOTIFICATION ?c)) = 2 \<and>
      outbox (snd (send quiet_env ''textDocument/didOpen'' (PDict []) NOTIFICATION ?c)) =
        [[(''method'', PStr ''textDocument/didOpen''), (''params'', PDict [])]] \<and>
      req_status (snd (send quiet_env ''textDocument/didOpen'' (PDict []) NOTIFICATION ?c)) (KInt 1) =
        None"
    using nt [THEN conjunct2, rule_format, OF r2] by (simp add: s build_msg_def)
  have r3: "fst (send quiet_env ''workspace/configuration'' (PList []) RESPONSE ?c) = Inr (PInt 1)"
    using rs [THEN conjunct1, rule_format, OF hl] by (simp add: s)
  have 3: "request_seq (snd (send quiet_env ''workspace/configuration'' (PList []) RESPONSE ?c)) = 2 \<and>
      outbox (snd (send quiet_env ''workspace/configuration'' (PList []) RESPONSE ?c)) =
        [[(''id'', PInt 1), (''result'', PList [])]] \<and>
      req_status (snd (send quiet_env ''workspace/configuration'' (PList []) RESPONSE ?c)) (KInt 1) =
        None"
    using rs [THEN conjunct2, rule_format, OF r3] by (simp add: s build_msg_def)
  have r4: "fst (send ?e ''textDocument/hover'' (PDict []) REQUEST ?c) = Inr (PInt 1)"
    using rt [THEN conjunct1, rule_format, OF hk] by (simp add: s)
  have 4: "request_seq (snd (send ?e ''textDocument/hover'' (PDict []) REQUEST ?c)) = 2"
    using rt [THEN conjunct2, rule_format, OF r4] by (simp add: s)
  have a: "attempts (snd (send ?e ''textDocument/hover'' (PDict []) REQUEST ?c)) = 2"
    by (simp add: eval_send send_loop.simps)
  from r1 1 r2 2 r3 3 r4 4 a show ?thesis
    by simp
qed

section \<open>The cancel sentinel\<close>

text \<open>
  Claim C7.  When the params of a call to \<^verbatim>\<open>send\<close> contain the cancel sentinel
  \<^verbatim>\<open>ClientConstants.CANCEL\<close>, the message is dropped: \<^verbatim>\<open>send\<close> returns no id, nothing
  is put on the channel (no message is sent and no attempt is made), and the id counter and
  the in-flight table are as before.
\<close>

theorem send_cancel_dropped:
  assumes "py_in (CANCEL e) params = Inr True"
  shows "fst (send e method params kind c) = Inr PNone \<and>
         outbox (snd (send e method params kind c)) = outbox c \<and>
         attempts (snd (send e method params kind c)) = attempts c \<and>
         request_seq (snd (send e method params kind c)) = request_seq c \<and>
         req_status (snd (send e method params kind c)) = req_status c"
proof -
  from assms have "send e method params kind c = (Inr PNone, snd (is_down e c))"
    by (simp add: send_cases)
  then show ?thesis
    by (simp add: is_down_fields)
qed

theorem send_cancel_dropped_witness:
  "py_in (CANCEL quiet_env) (PDict [(''lsp-cancel'', PBool True)]) = Inr True \<and>
   fst (send quiet_env ''textDocument/completion'' (PDict [(''lsp-cancel'', PBool True)]) REQUEST
          (hover_pending ''python'')) = Inr PNone \<and>
   request_seq (snd (send quiet_env ''textDocument/completion'' (PDict [(''lsp-cancel'', PBool True)])
          REQUEST (hover_pending ''python''))) = 2"
proof -
  have h: "py_in (CANCEL quiet_env) (PDict [(''lsp-cancel'', PBool True)]) = Inr True"
    by (simp add: quiet_env_def)
  from send_cancel_dropped [OF h, of "''textDocument/completion''" REQUEST "hover_pending ''python''"] h
  show ?thesis
    by (simp add: hover_pending_def)
qed

section \<open>A response with a null result\<close>

text \<open>
  Claim C8.  An inbound response (no \<^verbatim>\<open>error\<close>, no \<^verbatim>\<open>method\<close>) whose result is null
  resolves nothing, also when its id matches a request in flight: the session is exactly
  as before, so no handler and no callback has run, and the entries for that id are still
  in \<^verbatim>\<open>req_status\<close> and \<^verbatim>\<open>req_reply\<close>.  The whole receive loop on that one message
  only re-enables the notifier.
\<close>

theorem null_result_resolves_nothing:
  assumes "map_of resp ''error'' = None" and "map_of resp ''method'' = None"
    and "map_of resp ''result'' = Some PNone"
  shows "process_msg e resp c = (None, c) \<and>
         on_msg_received e [resp] c = (None, c\<lparr>notifier_enabled := True\<rparr>)"
  using assms by (simp add: process_msg_def on_result_def on_msg_received_def)

theorem null_result_resolves_nothing_witness:
  "map_of [(''id'', PInt 1), (''result'', PNone)] ''result'' = Some PNone \<and>
   process_msg (quiet_env\<lparr>handler_registry := [''textDocument/hover'' \<mapsto> ''handle_hover'']\<rparr>)
     [(''id'', PInt 1), (''result'', PNone)] (hover_pending ''python'')
     = (None, hover_pending ''python'') \<and>
   req_status (hover_pending ''python'') (KInt 1) = Some ''textDocument/hover'' \<and>
   req_reply (hover_pending ''python'') (KInt 1) = Some (PCallable 0)"
  using null_result_resolves_nothing [of "[(''id'', PInt 1), (''result'', PNone)]"
      "quiet_env\<lparr>handler_registry := [''textDocument/hover'' \<mapsto> ''handle_hover'']\<rparr>"
      "hover_pending ''python''"]
  by (simp add: hover_pending_def)

section \<open>A callback without the response flag\<close>

text \<open>
  Claim C10.  For a method with a registered sender and params that are a dictionary:
  if the params have the key \<^verbatim>\<open>response_callback\<close> but not the key
  \<^verbatim>\<open>requires_response\<close>, \<^verbatim>\<open>perform_request\<close> returns no id; it raises
  \<^verbatim>\<open>KeyError\<close> as soon as the sender has returned (and the sender's own exception if
  the sender raised).  The table \<^verbatim>\<open>req_reply\<close> is written only when both keys are
  present and the flag is true; then the callback is stored under the id that the sender
  returned and that id is the result.
\<close>

theorem perform_request_callback_needs_flag:
  assumes reg: "sender_registry e method = Some h"
  shows "(map_of d ''response_callback'' \<noteq> None \<and> map_of d ''requires_response'' = None \<longrightarrow>
            perform_request e method (PDict d) c =
              (case call_sender e h (PDict d) c of
                 (Inl ex, c1) \<Rightarrow> (Inl ex, c1)
               | (Inr ident, c1) \<Rightarrow> (Inl KeyError, c1))) \<and>
         (req_reply (snd (perform_request e method (PDict d) c)) \<noteq>
            req_reply (snd (call_sender e h (PDict d) c)) \<longrightarrow>
            (\<exists>cb flag. map_of d ''response_callback'' = Some cb \<and>
               map_of d ''requires_response'' = Some flag \<and> py_truthy flag)) \<and>
         (\<forall>cb flag ident k.
            map_of d ''response_callback'' = Some cb \<and>
            map_of d ''requires_response'' = Some flag \<and> py_truthy flag \<and>
            fst (call_sender e h (PDict d) c) = Inr ident \<and> py_key ident = Some k \<longrightarrow>
            perform_request e method (PDict d) c =
              (Inr ident, (snd (call_sender e h (PDict d) c))
                 \<lparr>req_reply := (req_reply (snd (call_sender e h (PDict d) c)))(k \<mapsto> cb)\<rparr>))"
proof (intro conjI impI allI)
  assume "map_of d ''response_callback'' \<noteq> None \<and> map_of d ''requires_response'' = None"
  then have "''response_callback'' \<in> fst ` set d" "map_of d ''requires_response'' = None"
    by (auto simp add: map_of_eq_None_iff)
  with reg show "perform_request e method (PDict d) c =
      (case call_sender e h (PDict d) c of
         (Inl ex, c1) \<Rightarrow> (Inl ex, c1)
       | (Inr ident, c1) \<Rightarrow> (Inl KeyError, c1))"
    by (simp add: perform_request_def split: prod.splits sum.splits)
next
  assume neq: "req_reply (snd (perform_request e method (PDict d) c)) \<noteq>
      req_reply (snd (call_sender e h (PDict d) c))"
  show "\<exists>cb flag. map_of d ''response_callback'' = Some cb \<and>
      map_of d ''requires_response'' = Some flag \<and> py_truthy flag"
  proof (rule ccontr)
    assume no: "\<not> (\<exists>cb flag. map_of d ''response_callback'' = Some cb \<and>
      map_of d ''requires_response'' = Some flag \<and> py_truthy flag)"
    have "snd (perform_request e method (PDict d) c) = snd (call_sender e h (PDict d) c)"
    proof (cases "map_of d ''response_callback''")
      case None
      then have "''response_callback'' \<notin> fst ` set d"
        by (simp add: map_of_eq_None_iff)
      with reg show ?thesis
        by (simp add: perform_request_def split: prod.splits sum.splits)
    next
      case (Some cb)
      then have "''response_callback'' \<in> fst ` set d"
        by (metis map_of_eq_None_iff option.distinct(1))
      with reg Some no show ?thesis
        by (cases "map_of d ''requires_response''")
          (auto simp add: perform_request_def split: prod.splits sum.splits)
    qed
    with neq show False by simp
  qed
next
  fix cb flag ident k
  assume a: "map_of d ''response_callback'' = Some cb \<and>
            map_of d ''requires_response'' = Some flag \<and> py_truthy flag \<and>
            fst (call_sender e h (PDict d) c) = Inr ident \<and> py_key ident = Some k"
  then have "''response_callback'' \<in> fst ` set d"
    by (metis map_of_eq_None_iff option.distinct(1))
  with reg a show "perform_request e method (PDict d) c =
      (Inr ident, (snd (call_sender e h (PDict d) c))
         \<lparr>req_reply := (req_reply (snd (call_sender e h (PDict d) c)))(k \<mapsto> cb)\<rparr>)"
    by (cases "call_sender e h (PDict d) c") (simp add: perform_request_def)
qed

theorem perform_request_callback_needs_flag_witness:
  "sender_registry sender_env ''textDocument/hover'' = Some ''hover_request'' \<and>
   fst (perform_request sender_env ''textDocument/hover''
          (PDict [(''response_callback'', PCallable 0)]) (new_client ''python'' [] [] (PDict [])))
     = Inl KeyError \<and>
   fst (perform_request sender_env ''textDocument/hover''
          (PDict [(''response_callback'', PCallable 0), (''requires_response'', PBool True)])
          (new_client ''python'' [] [] (PDict [])))
     = Inr (PInt 1) \<and>
   req_reply (snd (perform_request sender_env ''textDocument/hover''
          (PDict [(''response_callback'', PCallable 0), (''requires_response'', PBool True)])
          (new_client ''python'' [] [] (PDict [])))) (KInt 1)
     = Some (PCallable 0)"
proof -
  let ?c = "new_client ''python'' [] [] (PDict [])"
  let ?p1 = "[(''response_callback'', PCallable 0)]"
  let ?p2 = "[(''response_callback'', PCallable 0), (''requires_response'', PBool True)]"
  have reg: "sender_registry sender_env ''textDocument/hover'' = Some ''hover_request''"
    by (simp add: sender_env_def quiet_env_def)
  have s1: "fst (call_sender sender_env ''hover_request'' (PDict ?p1) ?c) = Inr (PInt 1)"
    by (simp add: sender_env_def eval_send send_loop.simps)
  have s2: "fst (call_sender sender_env ''hover_request'' (PDict ?p2) ?c) = Inr (PInt 1)"
    by (simp add: sender_env_def eval_send send_loop.simps)
  note t1 = perform_request_callback_needs_flag [OF reg, of ?p1 ?c]
  note t2 = perform_request_callback_needs_flag [OF reg, of ?p2 ?c]
  from t1 have "perform_request sender_env ''textDocument/hover'' (PDict ?p1) ?c =
      (case call_sender sender_env ''hover_request'' (PDict ?p1) ?c of
         (Inl ex, c1) \<Rightarrow> (Inl ex, c1)
       | (Inr ident, c1) \<Rightarrow> (Inl KeyError, c1))"
    by simp
  with s1 have r1: "fst (perform_request sender_env ''textDocument/hover'' (PDict ?p1) ?c) = Inl KeyError"
    by (cases "call_sender sender_env ''hover_request'' (PDict ?p1) ?c") simp
  from t2 s2 have "perform_request sender_env ''textDocument/hover'' (PDict ?p2) ?c =
      (Inr (PInt 1), (snd (call_sender sender_env ''hover_request'' (PDict ?p2) ?c))
         \<lparr>req_reply := (req_reply (snd (call_sender sender_env ''hover_request'' (PDict ?p2) ?c)))
            (KInt 1 \<mapsto> PCallable 0)\<rparr>)"
    by simp
  then have r2: "fst (perform_request sender_env ''textDocument/hover'' (PDict ?p2) ?c) = Inr (PInt 1)"
    and r3: "req_reply (snd (perform_request sender_env ''textDocument/hover'' (PDict ?p2) ?c)) (KInt 1)
      = Some (PCallable 0)"
    by simp_all
  from reg r1 r2 r3 show ?thesis by blast
qed

section \<open>Error reports\<close>

text \<open>The report for an error object of the wire format: with a traceback (a list of
  strings) it is the joined traceback, a newline and the message; without data there is
  none.\<close>

lemma py_join_strs: "py_join (PList (map PStr tbs)) = Inr (concat tbs)"
  by (simp add: list_all_iff comp_def)

lemma error_report_traceback:
  assumes "map_of ed ''message'' = Some (PStr m)" and "map_of ed ''data'' = Some (PDict dd)"
    and "map_of dd ''traceback'' = Some (PList (map PStr tbs))"
  shows "error_report (PDict ed) = Inr (Some (concat tbs @ [CHR 0x0A] @ m))"
  using assms by (simp add: error_report_def py_join_strs del: py_join.simps)

lemma error_report_no_data:
  assumes "map_of ed ''message'' = Some (PStr m)" and "map_of ed ''data'' = None"
  shows "error_report (PDict ed) = Inr None"
  using assms by (simp add: error_report_def)

section \<open>A response with an unknown id\<close>

text \<open>
  Claim C6 says that a response whose id has no entry in the tables is processed without
  raising, without changing the tables or the counter, and without emitting any signal.
  The last part fails for an error response: in a \<^verbatim>\<open>python\<close> session in debug mode
  the traceback of the error is emitted on \<^verbatim>\<open>sig_server_error\<close> before the id is
  looked at.  Here id 99 was never issued.
\<close>

theorem unknown_id_error_response_counterexample:
  "req_status (hover_pending ''python'') (KInt 99) = None \<and>
   req_reply (hover_pending ''python'') (KInt 99) = None \<and>
   emitted (hover_pending ''python'') = [] \<and>
   process_msg (quiet_env\<lparr>debug_level := 1\<rparr>)
     [(''id'', PInt 99),
      (''error'', PDict [(''code'', PInt (- 32603)), (''message'', PStr ''boom''),
                         (''data'', PDict [(''traceback'', PList [PStr ''Traceback'']) ])])]
     (hover_pending ''python'')
   = (None, (hover_pending ''python'')
        \<lparr>emitted := [sig_server_error (''Traceback'' @ [CHR 0x0A] @ ''boom'')]\<rparr>)"
  by (simp add: hover_pending_def new_client_def quiet_env_def process_msg_def on_error_def
      error_report_def emit_def)

text \<open>
  Claim C6, amended.  For a response (no \<^verbatim>\<open>method\<close>) whose id is hashable and has no
  entry in \<^verbatim>\<open>req_status\<close> and \<^verbatim>\<open>req_reply\<close>: the two tables and the id counter are
  unchanged.  If it carries no error, or the session is not a \<^verbatim>\<open>python\<close> session,
  nothing is raised and the session is unchanged altogether.  If it carries an error in a
  \<^verbatim>\<open>python\<close> session and building the report does not raise, nothing is raised and the
  only change is that \<^verbatim>\<open>sig_server_error\<close> is emitted with the report, when there is
  one (debug or development mode, and a traceback in the error's data).
\<close>

theorem unknown_id_tolerated:
  assumes nometh: "map_of resp ''method'' = None"
    and ident: "map_of resp ''id'' = Some i" and key: "py_key i = Some k"
    and unknown: "req_status c k = None" "req_reply c k = None"
  shows "req_status (snd (process_msg e resp c)) = req_status c \<and>
         req_reply (snd (process_msg e resp c)) = req_reply c \<and>
         request_seq (snd (process_msg e resp c)) = request_seq c \<and>
         (map_of resp ''error'' = None \<longrightarrow> process_msg e resp c = (None, c)) \<and>
         (map_of resp ''error'' \<noteq> None \<and> language c \<noteq> ''python'' \<longrightarrow>
            process_msg e resp c = (None, c)) \<and>
         (\<forall>err rep. map_of resp ''error'' = Some err \<and> language c = ''python'' \<and>
            (if debug_level e > 0 \<or> DEV e then error_report err else Inr None) = Inr rep \<longrightarrow>
            process_msg e resp c =
              (None, case rep of None \<Rightarrow> c | Some tb \<Rightarrow> emit (sig_server_error tb) c))"
proof -
  have res: "map_of resp ''error'' = None \<Longrightarrow> process_msg e resp c = (None, c)"
    using nometh ident key unknown
    by (simp add: process_msg_def on_result_def split: option.splits)
  have other: "map_of resp ''error'' \<noteq> None \<Longrightarrow> language c \<noteq> ''python'' \<Longrightarrow>
      process_msg e resp c = (None, c)"
    by (auto simp add: process_msg_def on_error_def)
  have py: "process_msg e resp c =
      (None, case rep of None \<Rightarrow> c | Some tb \<Rightarrow> emit (sig_server_error tb) c)"
    if "map_of resp ''error'' = Some err" "language c = ''python''"
      "(if debug_level e > 0 \<or> DEV e then error_report err else Inr None) = Inr rep"
    for err rep
    using that ident key unknown
    by (cases rep) (simp_all add: process_msg_def on_error_def emit_def)
  have raise: "snd (process_msg e resp c) = c"
    if "map_of resp ''error'' = Some err" "language c = ''python''"
      "(if debug_level e > 0 \<or> DEV e then error_report err else Inr None) = Inl ex"
    for err ex
    using that by (simp add: process_msg_def on_error_def)
  have frame: "req_status (snd (process_msg e resp c)) = req_status c \<and>
         req_reply (snd (process_msg e resp c)) = req_reply c \<and>
         request_seq (snd (process_msg e resp c)) = request_seq c"
  proof (cases "map_of resp ''error''")
    case None
    then show ?thesis by (simp add: res)
  next
    case (Some err)
    show ?thesis
    proof (cases "language c = ''python''")
      case False
      with Some show ?thesis by (simp add: other)
    next
      case True
      show ?thesis
      proof (cases "if debug_level e > 0 \<or> DEV e then error_report err else Inr None")
        case (Inl ex)
        from raise [OF Some True Inl] show ?thesis by simp
      next
        case (Inr rep)
        from py [OF Some True Inr] show ?thesis
          by (cases rep) (simp_all add: emit_def)
      qed
    qed
  qed
  from frame res other py show ?thesis by blast
qed

theorem unknown_id_tolerated_witness:
  "req_status (hover_pending ''python'') (KInt 99) = None \<and>
   req_reply (hover_pending ''python'') (KInt 99) = None \<and>
   process_msg (quiet_env\<lparr>handler_registry := [''textDocument/hover'' \<mapsto> ''handle_hover'']\<rparr>)
     [(''id'', PInt 99), (''result'', PDict [(''contents'', PStr ''doc'')])]
     (hover_pending ''python'')
   = (None, hover_pending ''python'')"
  using unknown_id_tolerated [of "[(''id'', PInt 99), (''result'', PDict [(''contents'', PStr ''doc'')])]"
      "PInt 99" "KInt 99" "hover_pending ''python''"
      "quiet_env\<lparr>handler_registry := [''textDocument/hover'' \<mapsto> ''handle_hover'']\<rparr>"]
  by (simp add: hover_pending_def new_client_def)

section \<open>An error response for a request in flight\<close>

text \<open>
  Claim C3 says that an error response whose id matches a pending request invokes the
  callback with a null result, surfaces the error and removes the entry from the tables,
  whatever the language tag.  In a session for another language than \<^verbatim>\<open>python\<close>
  nothing happens at all: the callback is not called and the entries stay.  In a
  \<^verbatim>\<open>python\<close> session the callback is called (the callable of the example environment
  records its arguments in the outbox), and the entries of both tables are still there
  afterwards; in production mode no signal is emitted.
\<close>

theorem error_response_counterexample:
  "process_msg quiet_env
     [(''id'', PInt 1), (''error'', PDict [(''code'', PInt (- 32603)), (''message'', PStr ''boom'')])]
     (hover_pending ''r'')
   = (None, hover_pending ''r'') \<and>
   req_status (hover_pending ''r'') (KInt 1) = Some ''textDocument/hover'' \<and>
   req_reply (hover_pending ''r'') (KInt 1) = Some (PCallable 0) \<and>
   process_msg quiet_env
     [(''id'', PInt 1), (''error'', PDict [(''code'', PInt (- 32603)), (''message'', PStr ''boom'')])]
     (hover_pending ''python'')
   = (None, (hover_pending ''python'')
        \<lparr>outbox := [[(''callback'', PList [PNone, PDict [(''params'', PList [])]])]]\<rparr>) \<and>
   req_status ((hover_pending ''python'')
        \<lparr>outbox := [[(''callback'', PList [PNone, PDict [(''params'', PList [])]])]]\<rparr>) (KInt 1)
     = Some ''textDocument/hover'' \<and>
   req_reply ((hover_pending ''python'')
        \<lparr>outbox := [[(''callback'', PList [PNone, PDict [(''params'', PList [])]])]]\<rparr>) (KInt 1)
     = Some (PCallable 0)"
  by (simp add: hover_pending_def new_client_def quiet_env_def process_msg_def on_error_def
      call_value_def)

text \<open>
  Claim C3, amended.  In a session whose language tag is \<^verbatim>\<open>python\<close>, an error
  response whose id has a callable in \<^verbatim>\<open>req_reply\<close> calls it with a null result and
  \<^verbatim>\<open>{'params': []}\<close>, provided that building the error report does not raise.  The
  report is built only in debug or development mode, before the id is looked up: when
  the error's data has a traceback, the report is emitted on \<^verbatim>\<open>sig_server_error\<close> and
  then the callable is called; when the error is not of the shape that the report reads
  (an object whose message is a string and whose traceback is a list of strings), the
  exception leaves the session as it was and the callable is not called.
\<close>

theorem error_response_python:
  assumes py: "language c = ''python''"
    and err: "map_of resp ''error'' = Some err"
    and ident: "map_of resp ''id'' = Some i" and key: "py_key i = Some k"
    and cb: "req_reply c k = Some (PCallable cb)"
  shows "process_msg e resp c =
           (case (if debug_level e > 0 \<or> DEV e then error_report err else Inr None) of
              Inl ex \<Rightarrow> (Some ex, c)
            | Inr rep \<Rightarrow>
                call_callback e cb [PNone, PDict [(''params'', PList [])]]
                  (case rep of None \<Rightarrow> c | Some tb \<Rightarrow> emit (sig_server_error tb) c))"
proof (cases "if debug_level e > 0 \<or> DEV e then error_report err else Inr None")
  case (Inl ex)
  with py err show ?thesis
    by (simp add: process_msg_def on_error_def)
next
  case (Inr rep)
  with assms show ?thesis
    by (cases rep) (simp_all add: process_msg_def on_error_def call_value_def emit_def)
qed

text \<open>In debug mode an error with a traceback is reported and the callable is called; an
  error that is a bare string raises \<^verbatim>\<open>AttributeError\<close> and the callable is not
  called; in production mode the same bare string is not read and the callable is
  called.\<close>

theorem error_response_python_witness:
  "language (hover_pending ''python'') = ''python'' \<and>
   req_reply (hover_pending ''python'') (KInt 1) = Some (PCallable 0) \<and>
   process_msg (quiet_env\<lparr>debug_level := 1\<rparr>)
     [(''id'', PInt 1),
      (''error'', PDict [(''message'', PStr ''boom''),
                         (''data'', PDict [(''traceback'', PList (map PStr [''Traceback'']))])])]
     (hover_pending ''python'')
   = call_callback (quiet_env\<lparr>debug_level := 1\<rparr>) 0 [PNone, PDict [(''params'', PList [])]]
       (emit (sig_server_error (''Traceback'' @ [CHR 0x0A] @ ''boom'')) (hover_pending ''python'')) \<and>
   process_msg (quiet_env\<lparr>debug_level := 1\<rparr>) [(''id'', PInt 1), (''error'', PStr ''boom'')]
     (hover_pending ''python'')
   = (Some AttributeError, hover_pending ''python'') \<and>
   process_msg quiet_env [(''id'', PInt 1), (''error'', PStr ''boom'')] (hover_pending ''python'')
   = call_callback quiet_env 0 [PNone, PDict [(''params'', PList [])]] (hover_pending ''python'')"
proof -
  let ?ed = "[(''message'', PStr ''boom''),
              (''data'', PDict [(''traceback'', PList (map PStr [''Traceback'']))])]"
  let ?d = "quiet_env\<lparr>debug_level := 1\<rparr>"
  have r: "error_report (PDict ?ed) = Inr (Some (concat [''Traceback''] @ [CHR 0x0A] @ ''boom''))"
    by (rule error_report_traceback [where dd = "[(''traceback'', PList (map PStr [''Traceback'']))]"])
      simp_all
  have b: "error_report (PStr ''boom'') = Inl AttributeError"
    by (simp add: error_report_def)
  have l: "language (hover_pending ''python'') = ''python''"
    and q: "req_reply (hover_pending ''python'') (KInt 1) = Some (PCallable 0)"
    by (simp_all add: hover_pending_def new_client_def)
  have m: "debug_level ?d = 1" "debug_level quiet_env = 0" "DEV quiet_env = False"
    by (simp_all add: quiet_env_def)
  have 1: "process_msg ?d [(''id'', PInt 1), (''error'', PDict ?ed)] (hover_pending ''python'')
        = call_callback ?d 0 [PNone, PDict [(''params'', PList [])]]
            (emit (sig_server_error (''Traceback'' @ [CHR 0x0A] @ ''boom'')) (hover_pending ''python''))"
    using error_response_python [OF l _ _ _ q, where i = "PInt 1" and e = ?d
        and resp = "[(''id'', PInt 1), (''error'', PDict ?ed)]" and err = "PDict ?ed"] r m
    by simp
  have 2: "process_msg ?d [(''id'', PInt 1), (''error'', PStr ''boom'')] (hover_pending ''python'')
        = (Some AttributeError, hover_pending ''python'')"
    using error_response_python [OF l _ _ _ q, where i = "PInt 1" and e = ?d
        and resp = "[(''id'', PInt 1), (''error'', PStr ''boom'')]" and err = "PStr ''boom''"] b m
    by simp
  have 3: "process_msg quiet_env [(''id'', PInt 1), (''error'', PStr ''boom'')] (hover_pending ''python'')
        = call_callback quiet_env 0 [PNone, PDict [(''params'', PList [])]] (hover_pending ''python'')"
    using error_response_python [OF l _ _ _ q, where i = "PInt 1" and e = quiet_env
        and resp = "[(''id'', PInt 1), (''error'', PStr ''boom'')]" and err = "PStr ''boom''"] m
    by simp
  from l q 1 2 3 show ?thesis
    by simp
qed

section \<open>Merging the server capabilities\<close>

text \<open>\<^verbatim>\<open>dict.update\<close> with the same argument twice is the same as once, also as
  lists in insertion order.\<close>

lemma dict_update_Nil: "dict_update c [] = c"
  by (simp add: dict_update_def)

lemma dict_update_Cons: "dict_update c ((k, v) # d) = dict_update (AList.update k v c) d"
  by (simp add: dict_update_def)

lemma keys_dict_update: "fst ` set (dict_update c d) = fst ` set c \<union> fst ` set d"
proof (induction d arbitrary: c)
  case Nil
  then show ?case by (simp add: dict_update_Nil)
next
  case (Cons x d)
  obtain k v where x: "x = (k, v)" by (cases x)
  show ?case
    by (auto simp add: x dict_update_Cons Cons.IH dom_update)
qed

lemma map_of_dict_update_other:
  "k \<notin> fst ` set d \<Longrightarrow> map_of (dict_update c d) k = map_of c k"
proof (induction d arbitrary: c)
  case Nil
  then show ?case by (simp add: dict_update_Nil)
next
  case (Cons x d)
  obtain k' v' where x: "x = (k', v')" by (cases x)
  from Cons.prems have "k \<noteq> k'" "k \<notin> fst ` set d" by (auto simp add: x)
  then show ?case
    by (simp add: x dict_update_Cons Cons.IH update_conv')
qed

lemma map_of_dict_update:
  "distinct (map fst d) \<Longrightarrow>
     map_of (dict_update c d) k = (case map_of d k of Some v \<Rightarrow> Some v | None \<Rightarrow> map_of c k)"
proof (induction d arbitrary: c)
  case Nil
  then show ?case by (simp add: dict_update_Nil)
next
  case (Cons x d)
  obtain k' v' where x: "x = (k', v')" by (cases x)
  from Cons.prems have d: "distinct (map fst d)" and nin: "k' \<notin> fst ` set d"
    by (auto simp add: x)
  show ?case
  proof (cases "k = k'")
    case True
    with nin have "map_of d k = None" by (simp add: map_of_eq_None_iff)
    with True nin show ?thesis
      by (simp add: x dict_update_Cons map_of_dict_update_other update_conv')
  next
    case False
    then show ?thesis
      by (simp add: x dict_update_Cons Cons.IH [OF d] update_conv' split: option.splits)
  qed
qed

lemma update_commute_present:
  "k \<in> fst ` set c \<Longrightarrow> k \<noteq> k' \<Longrightarrow>
     AList.update k' v' (AList.update k v c) = AList.update k v (AList.update k' v' c)"
  by (induction c) auto

lemma dict_update_absorb:
  "k \<in> fst ` set c \<Longrightarrow> k \<in> fst ` set d \<Longrightarrow>
     dict_update (AList.update k v c) d = dict_update c d"
proof (induction d arbitrary: c)
  case Nil
  then show ?case by simp
next
  case (Cons x d)
  obtain k' v' where x: "x = (k', v')" by (cases x)
  show ?case
  proof (cases "k' = k")
    case True
    then show ?thesis by (simp add: x dict_update_Cons)
  next
    case False
    with Cons.prems have kd: "k \<in> fst ` set d" by (auto simp add: x)
    from Cons.prems have kc: "k \<in> fst ` set (AList.update k' v' c)"
      by (simp add: dom_update)
    have "dict_update (AList.update k v c) (x # d)
        = dict_update (AList.update k' v' (AList.update k v c)) d"
      by (simp add: x dict_update_Cons)
    also have "\<dots> = dict_update (AList.update k v (AList.update k' v' c)) d"
      using Cons.prems False by (simp add: update_commute_present)
    also have "\<dots> = dict_update (AList.update k' v' c) d"
      by (rule Cons.IH [OF kc kd])
    also have "\<dots> = dict_update c (x # d)"
      by (simp add: x dict_update_Cons)
    finally show ?thesis .
  qed
qed

lemma dict_update_idem: "dict_update (dict_update c d) d = dict_update c d"
proof (induction d arbitrary: c)
  case Nil
  then show ?case by (simp add: dict_update_Nil)
next
  case (Cons x d)
  obtain k v where x: "x = (k, v)" by (cases x)
  let ?c' = "AList.update k v c"
  let ?R = "dict_update ?c' d"
  have kR: "k \<in> fst ` set ?R"
    by (simp add: keys_dict_update dom_update)
  have "dict_update (AList.update k v ?R) d = ?R"
  proof (cases "k \<in> fst ` set d")
    case True
    have "dict_update (AList.update k v ?R) d = dict_update ?R d"
      by (rule dict_update_absorb [OF kR True])
    then show ?thesis by (simp add: Cons.IH)
  next
    case False
    then have "map_of ?R k = Some v"
      by (simp add: map_of_dict_update_other update_conv')
    then have "AList.update k v ?R = ?R"
      by (rule update_triv)
    then show ?thesis by (simp add: Cons.IH)
  qed
  then show ?case
    by (simp add: x dict_update_Cons)
qed

lemma merge_server_capabilites_eq:
  assumes "map_of r ''capabilities'' = Some (PDict d)"
    and "map_of d ''textDocumentSync'' = Some sync"
  shows "merge_server_capabilites tdso caps (PDict r) =
     (if isinstance_int sync then
        Inr (dict_update caps
               (AList.update ''textDocumentSync'' (PDict (AList.update ''change'' sync tdso)) d),
             AList.update ''change'' sync tdso,
             PDict (AList.update ''capabilities''
               (PDict (AList.update ''textDocumentSync'' (PDict (AList.update ''change'' sync tdso)) d))
               r))
      else if sync = PNone then
        Inr (dict_update caps (AList.delete ''textDocumentSync'' d), tdso,
             PDict (AList.update ''capabilities'' (PDict (AList.delete ''textDocumentSync'' d)) r))
      else Inr (dict_update caps d, tdso, PDict (AList.update ''capabilities'' (PDict d) r)))"
  using assms
  by (cases sync) (simp_all add: merge_server_capabilites_def update_conv' Let_def)

lemma merge_server_capabilites_KeyError:
  assumes "map_of r ''capabilities'' = Some (PDict d)"
    and "map_of d ''textDocumentSync'' = None"
  shows "merge_server_capabilites tdso caps (PDict r) = Inl KeyError"
  using assms by (simp add: merge_server_capabilites_def)

lemma merge_server_capabilites_InrD:
  assumes "merge_server_capabilites tdso caps response = Inr res"
  shows "\<exists>r d sync. response = PDict r \<and> map_of r ''capabilities'' = Some (PDict d) \<and>
           map_of d ''textDocumentSync'' = Some sync"
proof -
  from assms obtain cap where cap: "py_getitem response ''capabilities'' = Inr cap"
    by (auto simp add: merge_server_capabilites_def split: sum.splits)
  with assms obtain sync where sync: "py_getitem cap ''textDocumentSync'' = Inr sync"
    by (auto simp add: merge_server_capabilites_def split: sum.splits)
  from cap obtain r where r: "response = PDict r" "map_of r ''capabilities'' = Some cap"
    by (cases response) (auto split: option.splits)
  from sync obtain d where d: "cap = PDict d" "map_of d ''textDocumentSync'' = Some sync"
    by (cases cap) (auto split: option.splits)
  from r d show ?thesis by blast
qed

text \<open>With external calls that do nothing, \<^verbatim>\<open>process_server_capabilities\<close> stores what
  the merge computes and emits \<^verbatim>\<open>sig_initialize\<close> with the merged set; when the merge
  raises, so does the method, after it has set \<^verbatim>\<open>initialized\<close>.\<close>

lemma process_server_capabilities_merged:
  assumes "call_external e = (\<lambda>name args c. (None, c))"
    and "merge_server_capabilites (TEXT_DOCUMENT_SYNC_OPTIONS c) (server_capabilites c) response
           = Inr (caps1, tdso1, response1)"
  shows "process_server_capabilities e response c =
           (None, emit (sig_initialize caps1 (language c))
              (c\<lparr>initialized := True, server_capabilites := caps1,
                 TEXT_DOCUMENT_SYNC_OPTIONS := tdso1\<rparr>))"
  using assms by (simp add: process_server_capabilities_def emit_def)

lemma process_server_capabilities_raises:
  assumes "call_external e = (\<lambda>name args c. (None, c))"
    and "merge_server_capabilites (TEXT_DOCUMENT_SYNC_OPTIONS c) (server_capabilites c) response
           = Inl ex"
  shows "process_server_capabilities e response c = (Some ex, c\<lparr>initialized := True\<rparr>)"
  using assms by (simp add: process_server_capabilities_def)

text \<open>
  Claim C4 says that applying the same payload twice gives the same merged set as
  applying it once, and that an explicitly null \<^verbatim>\<open>textDocumentSync\<close> is removed from
  the merged set.  The null value is removed from the payload before the merge, so the
  merged set keeps the entry it had: here the session has merged
  \<^verbatim>\<open>textDocumentSync: 2\<close> before, and after a payload with a null value the entry is
  still in \<^verbatim>\<open>server_capabilites\<close>.  The payload object has lost the key, so
  applying that same object a second time raises \<^verbatim>\<open>KeyError\<close>.
\<close>

theorem null_sync_counterexample:
  "merge_server_capabilites [(''openClose'', PBool True), (''change'', PInt 2)]
     [(''textDocumentSync'', PDict [(''openClose'', PBool True), (''change'', PInt 2)]),
      (''hoverProvider'', PBool True)]
     (PDict [(''capabilities'', PDict [(''textDocumentSync'', PNone)])])
   = Inr ([(''textDocumentSync'', PDict [(''openClose'', PBool True), (''change'', PInt 2)]),
           (''hoverProvider'', PBool True)],
          [(''openClose'', PBool True), (''change'', PInt 2)],
          PDict [(''capabilities'', PDict [])]) \<and>
   map_of [(''textDocumentSync'', PDict [(''openClose'', PBool True), (''change'', PInt 2)]),
           (''hoverProvider'', PBool True)] ''textDocumentSync''
   = Some (PDict [(''openClose'', PBool True), (''change'', PInt 2)]) \<and>
   merge_server_capabilites [(''openClose'', PBool True), (''change'', PInt 2)]
     [(''textDocumentSync'', PDict [(''openClose'', PBool True), (''change'', PInt 2)]),
      (''hoverProvider'', PBool True)]
     (PDict [(''capabilities'', PDict [])])
   = Inl KeyError"
  by (simp add: merge_server_capabilites_def dict_update_def Let_def)

text \<open>
  Claim C4, amended.  Whenever the merge of an \<^verbatim>\<open>initialize\<close> response succeeds,
  merging an equal response once more (one that still has its \<^verbatim>\<open>textDocumentSync\<close>)
  succeeds and changes neither the merged set nor \<^verbatim>\<open>TEXT_DOCUMENT_SYNC_OPTIONS\<close>; so
  does merging the same response object again, as the first merge left it, when its
  \<^verbatim>\<open>textDocumentSync\<close> was not null.  An integer \<^verbatim>\<open>textDocumentSync\<close> is replaced
  by \<^verbatim>\<open>TEXT_DOCUMENT_SYNC_OPTIONS\<close> with its \<^verbatim>\<open>change\<close> entry set to that integer,
  a function of the integer and the options alone.  A null \<^verbatim>\<open>textDocumentSync\<close> is
  removed from the response, not from the merged set: the merged set keeps the entry it
  had, or none, and merging the same response object again raises \<^verbatim>\<open>KeyError\<close>.
\<close>

theorem merge_server_capabilites_idempotent:
  assumes m: "merge_server_capabilites tdso caps response = Inr (caps1, tdso1, response1)"
  shows "merge_server_capabilites tdso1 caps1 response = Inr (caps1, tdso1, response1) \<and>
         (\<forall>d sync. py_getitem response ''capabilities'' = Inr (PDict d) \<and>
            map_of d ''textDocumentSync'' = Some sync \<and> sync \<noteq> PNone \<longrightarrow>
              merge_server_capabilites tdso1 caps1 response1 = Inr (caps1, tdso1, response1)) \<and>
         (\<forall>d sync. py_getitem response ''capabilities'' = Inr (PDict d) \<and>
            distinct (map fst d) \<and> map_of d ''textDocumentSync'' = Some sync \<and>
            isinstance_int sync \<longrightarrow>
              tdso1 = AList.update ''change'' sync tdso \<and>
              map_of caps1 ''textDocumentSync'' = Some (PDict tdso1) \<and>
              map_of tdso1 ''change'' = Some sync) \<and>
         (\<forall>d. py_getitem response ''capabilities'' = Inr (PDict d) \<and>
            map_of d ''textDocumentSync'' = Some PNone \<longrightarrow>
              tdso1 = tdso \<and>
              map_of caps1 ''textDocumentSync'' = map_of caps ''textDocumentSync'' \<and>
              py_getitem response1 ''capabilities'' =
                Inr (PDict (AList.delete ''textDocumentSync'' d)) \<and>
              merge_server_capabilites tdso1 caps1 response1 = Inl KeyError)"
proof -
  from merge_server_capabilites_InrD [OF m] obtain r d sync
    where r: "response = PDict r" and cap: "map_of r ''capabilities'' = Some (PDict d)"
      and sync: "map_of d ''textDocumentSync'' = Some sync"
    by blast
  note eq = merge_server_capabilites_eq [OF cap sync]
  have getcap: "py_getitem response ''capabilities'' = Inr (PDict d)"
    by (simp add: r cap)
  let ?t = "AList.update ''change'' sync tdso"
  let ?di = "AList.update ''textDocumentSync'' (PDict ?t) d"
  let ?dn = "AList.delete ''textDocumentSync'' d"
  have int_res: "caps1 = dict_update caps ?di \<and> tdso1 = ?t \<and>
      response1 = PDict (AList.update ''capabilities'' (PDict ?di) r)"
    if "isinstance_int sync"
    using m that by (auto simp add: r eq)
  have null_res: "caps1 = dict_update caps ?dn \<and> tdso1 = tdso \<and>
      response1 = PDict (AList.update ''capabilities'' (PDict ?dn) r)"
    if "sync = PNone"
    using m that by (auto simp add: r eq)
  have other_res: "caps1 = dict_update caps d \<and> tdso1 = tdso \<and>
      response1 = PDict (AList.update ''capabilities'' (PDict d) r)"
    if "\<not> isinstance_int sync" "sync \<noteq> PNone"
    using m that by (auto simp add: r eq)
  have idem: "merge_server_capabilites tdso1 caps1 response = Inr (caps1, tdso1, response1)"
  proof (cases "isinstance_int sync")
    case True
    with int_res show ?thesis
      by (simp add: r eq dict_update_idem)
  next
    case False
    show ?thesis
    proof (cases "sync = PNone")
      case True
      with False null_res show ?thesis
        by (simp add: r eq dict_update_idem)
    next
      case nn: False
      with False other_res show ?thesis
        by (simp add: r eq dict_update_idem)
    qed
  qed
  have again: "merge_server_capabilites tdso1 caps1 response1 = Inr (caps1, tdso1, response1)"
    if "py_getitem response ''capabilities'' = Inr (PDict d')"
      "map_of d' ''textDocumentSync'' = Some sync'" "sync' \<noteq> PNone"
    for d' sync'
  proof -
    from that getcap sync have nn: "sync \<noteq> PNone" by simp
    show ?thesis
    proof (cases "isinstance_int sync")
      case True
      let ?r1 = "AList.update ''capabilities'' (PDict ?di) r"
      have c1: "map_of ?r1 ''capabilities'' = Some (PDict ?di)"
        by (simp add: update_conv')
      have s1: "map_of ?di ''textDocumentSync'' = Some (PDict ?t)"
        by (simp add: update_conv')
      have "merge_server_capabilites ?t (dict_update caps ?di) (PDict ?r1) =
          Inr (dict_update (dict_update caps ?di) ?di, ?t,
               PDict (AList.update ''capabilities'' (PDict ?di) ?r1))"
        by (simp add: merge_server_capabilites_eq [OF c1 s1])
      with int_res [OF True] show ?thesis
        by (simp add: dict_update_idem)
    next
      case False
      let ?r1 = "AList.update ''capabilities'' (PDict d) r"
      have c1: "map_of ?r1 ''capabilities'' = Some (PDict d)"
        by (simp add: update_conv')
      from False nn have "merge_server_capabilites tdso (dict_update caps d) (PDict ?r1) =
          Inr (dict_update (dict_update caps d) d, tdso,
               PDict (AList.update ''capabilities'' (PDict d) ?r1))"
        by (simp add: merge_server_capabilites_eq [OF c1 sync])
      with other_res [OF False nn] show ?thesis
        by (simp add: dict_update_idem)
    qed
  qed
  have norm: "tdso1 = AList.update ''change'' sync' tdso \<and>
              map_of caps1 ''textDocumentSync'' = Some (PDict tdso1) \<and>
              map_of tdso1 ''change'' = Some sync'"
    if "py_getitem response ''capabilities'' = Inr (PDict d')" "distinct (map fst d')"
      "map_of d' ''textDocumentSync'' = Some sync'" "isinstance_int sync'"
    for d' sync'
  proof -
    from that getcap sync have dd: "d' = d" and ss: "sync' = sync" by simp_all
    from that int_res have c1: "caps1 = dict_update caps ?di" and t1: "tdso1 = ?t"
      by (simp_all add: ss)
    from that have "distinct (map fst ?di)"
      by (simp add: dd distinct_update)
    then have "map_of caps1 ''textDocumentSync'' = Some (PDict ?t)"
      by (simp add: c1 map_of_dict_update update_conv')
    with t1 show ?thesis
      by (simp add: ss update_conv')
  qed
  have null: "tdso1 = tdso \<and> map_of caps1 ''textDocumentSync'' = map_of caps ''textDocumentSync'' \<and>
      py_getitem response1 ''capabilities'' = Inr (PDict (AList.delete ''textDocumentSync'' d')) \<and>
      merge_server_capabilites tdso1 caps1 response1 = Inl KeyError"
    if "py_getitem response ''capabilities'' = Inr (PDict d')"
      "map_of d' ''textDocumentSync'' = Some PNone"
    for d'
  proof -
    from that getcap sync have dd: "d' = d" and ss: "sync = PNone" by simp_all
    from null_res [OF ss] have c1: "caps1 = dict_update caps ?dn" and t1: "tdso1 = tdso"
      and r1: "response1 = PDict (AList.update ''capabilities'' (PDict ?dn) r)"
      by simp_all
    have nin: "''textDocumentSync'' \<notin> fst ` set ?dn"
      by (rule delete_notin_dom)
    then have keep: "map_of caps1 ''textDocumentSync'' = map_of caps ''textDocumentSync''"
      by (simp add: c1 map_of_dict_update_other)
    have g1: "map_of (AList.update ''capabilities'' (PDict ?dn) r) ''capabilities'' = Some (PDict ?dn)"
      by (simp add: update_conv')
    from nin have gone: "map_of ?dn ''textDocumentSync'' = None"
      by (simp add: map_of_eq_None_iff)
    have "merge_server_capabilites tdso1 caps1 response1 = Inl KeyError"
      unfolding r1 by (rule merge_server_capabilites_KeyError [OF g1 gone])
    with t1 keep g1 show ?thesis
      by (simp add: r1 dd)
  qed
  from idem again norm null show ?thesis by blast
qed

text \<open>A first \<^verbatim>\<open>initialize\<close> response with \<^verbatim>\<open>textDocumentSync: 2\<close>, then an equal
  response and the same response object once more.\<close>

theorem merge_server_capabilites_idempotent_witness:
  "merge_server_capabilites [(''openClose'', PBool True), (''change'', PInt 0)] []
     (PDict [(''capabilities'', PDict [(''textDocumentSync'', PInt 2), (''hoverProvider'', PBool True)])])
   = Inr ([(''textDocumentSync'', PDict [(''openClose'', PBool True), (''change'', PInt 2)]),
           (''hoverProvider'', PBool True)],
          [(''openClose'', PBool True), (''change'', PInt 2)],
          PDict [(''capabilities'',
                  PDict [(''textDocumentSync'', PDict [(''openClose'', PBool True), (''change'', PInt 2)]),
                         (''hoverProvider'', PBool True)])]) \<and>
   merge_server_capabilites [(''openClose'', PBool True), (''change'', PInt 2)]
     [(''textDocumentSync'', PDict [(''openClose'', PBool True), (''change'', PInt 2)]),
      (''hoverProvider'', PBool True)]
     (PDict [(''capabilities'', PDict [(''textDocumentSync'', PInt 2), (''hoverProvider'', PBool True)])])
   = Inr ([(''textDocumentSync'', PDict [(''openClose'', PBool True), (''change'', PInt 2)]),
           (''hoverProvider'', PBool True)],
          [(''openClose'', PBool True), (''change'', PInt 2)],
          PDict [(''capabilities'',
                  PDict [(''textDocumentSync'', PDict [(''openClose'', PBool True), (''change'', PInt 2)]),
                         (''hoverProvider'', PBool True)])]) \<and>
   merge_server_capabilites [(''openClose'', PBool True), (''change'', PInt 2)]
     [(''textDocumentSync'', PDict [(''openClose'', PBool True), (''change'', PInt 2)]),
      (''hoverProvider'', PBool True)]
     (PDict [(''capabilities'',
              PDict [(''textDocumentSync'', PDict [(''openClose'', PBool True), (''change'', PInt 2)]),
                     (''hoverProvider'', PBool True)])])
   = Inr ([(''textDocumentSync'', PDict [(''openClose'', PBool True), (''change'', PInt 2)]),
           (''hoverProvider'', PBool True)],
          [(''openClose'', PBool True), (''change'', PInt 2)],
          PDict [(''capabilities'',
                  PDict [(''textDocumentSync'', PDict [(''openClose'', PBool True), (''change'', PInt 2)]),
                         (''hoverProvider'', PBool True)])])"
proof -
  let ?d = "[(''textDocumentSync'', PInt 2), (''hoverProvider'', PBool True)]"
  have h: "merge_server_capabilites [(''openClose'', PBool True), (''change'', PInt 0)] []
     (PDict [(''capabilities'', PDict ?d)])
   = Inr ([(''textDocumentSync'', PDict [(''openClose'', PBool True), (''change'', PInt 2)]),
           (''hoverProvider'', PBool True)],
          [(''openClose'', PBool True), (''change'', PInt 2)],
          PDict [(''capabilities'',
                  PDict [(''textDocumentSync'', PDict [(''openClose'', PBool True), (''change'', PInt 2)]),
                         (''hoverProvider'', PBool True)])])"
    by (simp add: merge_server_capabilites_def dict_update_def Let_def)
  have g: "py_getitem (PDict [(''capabilities'', PDict ?d)]) ''capabilities'' = Inr (PDict ?d) \<and>
      map_of ?d ''textDocumentSync'' = Some (PInt 2) \<and> PInt 2 \<noteq> PNone"
    by simp
  from merge_server_capabilites_idempotent [OF h] g h show ?thesis
    by blast
qed

section \<open>The liveness poll fires once\<close>

text \<open>What one poll does to the signals, the two flags and the poll counter.\<close>

lemma check_transport_effect:
  "emitted (snd (check_transport p c)) =
     emitted c @ replicate (if transport c \<and> \<not> is_transport_alive p \<and> \<not> transport_unresponsive c
                            then 1 else 0) (sig_went_down (language c))"
  "transport_unresponsive (snd (check_transport p c)) =
     (transport_unresponsive c \<or> (transport c \<and> \<not> is_transport_alive p))"
  "server_unresponsive (snd (check_transport p c)) = server_unresponsive c"
  "polls (snd (check_transport p c)) = polls c"
  by (simp_all add: check_transport_def emit_def)

lemma check_server_effect:
  "emitted (snd (check_server p c)) =
     emitted c @ replicate (if server c \<and> \<not> is_server_alive p \<and> \<not> server_unresponsive c
                            then 1 else 0) (sig_went_down (language c))"
  "transport_unresponsive (snd (check_server p c)) = transport_unresponsive c"
  "server_unresponsive (snd (check_server p c)) =
     (server_unresponsive c \<or> (server c \<and> \<not> is_server_alive p))"
  "polls (snd (check_server p c)) = polls c"
  by (simp_all add: check_server_def emit_def)

lemma check_stdio_effect:
  "emitted (snd (check_stdio p c)) =
     emitted c @ replicate (if stdio_pid_truthy c \<and> \<not> is_stdio_alive p \<and> \<not> server_unresponsive c
                            then 1 else 0) (sig_went_down (language c))"
  "transport_unresponsive (snd (check_stdio p c)) = transport_unresponsive c"
  "server_unresponsive (snd (check_stdio p c)) =
     (server_unresponsive c \<or> (stdio_pid_truthy c \<and> \<not> is_stdio_alive p))"
  "polls (snd (check_stdio p c)) = polls c"
  by (simp_all add: check_stdio_def emit_def stdio_pid_truthy_def)

lemma same_tables_handles:
  assumes "same_tables c c1"
  shows "language c1 = language c" "transport c1 = transport c" "server c1 = server c"
    "stdio_pid_truthy c1 = stdio_pid_truthy c"
  using assms by (simp_all add: same_tables_def stdio_pid_truthy_def)

lemma is_down_at_effect:
  "emitted (snd (is_down_at p c)) =
     emitted c @ replicate
       ((if transport c \<and> \<not> is_transport_alive p \<and> \<not> transport_unresponsive c then 1 else 0) +
        (if \<not> server_unresponsive c \<and>
            ((server c \<and> \<not> is_server_alive p) \<or> (stdio_pid_truthy c \<and> \<not> is_stdio_alive p))
         then 1 else 0)) (sig_went_down (language c))"
  "transport_unresponsive (snd (is_down_at p c)) =
     (transport_unresponsive c \<or> (transport c \<and> \<not> is_transport_alive p))"
  "server_unresponsive (snd (is_down_at p c)) =
     (server_unresponsive c \<or> (server c \<and> \<not> is_server_alive p) \<or>
      (stdio_pid_truthy c \<and> \<not> is_stdio_alive p))"
  "polls (snd (is_down_at p c)) = polls c"
proof -
  let ?c1 = "snd (check_transport p c)"
  let ?c2 = "snd (check_server p ?c1)"
  have h1: "language ?c1 = language c" "server ?c1 = server c"
    "stdio_pid_truthy ?c1 = stdio_pid_truthy c"
    using same_tables_handles [OF check_transport_same [of c p]] by simp_all
  have h2: "language ?c2 = language ?c1" "stdio_pid_truthy ?c2 = stdio_pid_truthy ?c1"
    using same_tables_handles [OF check_server_same [of ?c1 p]] by simp_all
  show "emitted (snd (is_down_at p c)) =
     emitted c @ replicate
       ((if transport c \<and> \<not> is_transport_alive p \<and> \<not> transport_unresponsive c then 1 else 0) +
        (if \<not> server_unresponsive c \<and>
            ((server c \<and> \<not> is_server_alive p) \<or> (stdio_pid_truthy c \<and> \<not> is_stdio_alive p))
         then 1 else 0)) (sig_went_down (language c))"
    by (simp add: is_down_at_snd check_transport_effect check_server_effect check_stdio_effect h1 h2)
  show "transport_unresponsive (snd (is_down_at p c)) =
     (transport_unresponsive c \<or> (transport c \<and> \<not> is_transport_alive p))"
    by (simp add: is_down_at_snd check_transport_effect check_server_effect check_stdio_effect)
  show "server_unresponsive (snd (is_down_at p c)) =
     (server_unresponsive c \<or> (server c \<and> \<not> is_server_alive p) \<or>
      (stdio_pid_truthy c \<and> \<not> is_stdio_alive p))"
    by (auto simp add: is_down_at_snd check_transport_effect check_server_effect
        check_stdio_effect h1 h2)
  show "polls (snd (is_down_at p c)) = polls c"
    by (simp add: is_down_at_snd check_transport_effect check_server_effect check_stdio_effect)
qed

lemma is_down_effect:
  "emitted (snd (is_down e c)) =
     emitted c @ replicate
       ((if transport c \<and> \<not> is_transport_alive (procs e (polls c)) \<and> \<not> transport_unresponsive c
         then 1 else 0) +
        (if \<not> server_unresponsive c \<and>
            ((server c \<and> \<not> is_server_alive (procs e (polls c))) \<or>
             (stdio_pid_truthy c \<and> \<not> is_stdio_alive (procs e (polls c))))
         then 1 else 0)) (sig_went_down (language c))"
  "transport_unresponsive (snd (is_down e c)) =
     (transport_unresponsive c \<or> (transport c \<and> \<not> is_transport_alive (procs e (polls c))))"
  "server_unresponsive (snd (is_down e c)) =
     (server_unresponsive c \<or> (server c \<and> \<not> is_server_alive (procs e (polls c))) \<or>
      (stdio_pid_truthy c \<and> \<not> is_stdio_alive (procs e (polls c))))"
  "polls (snd (is_down e c)) = Suc (polls c)"
  by (simp_all add: is_down_def is_down_at_effect stdio_pid_truthy_def)

lemma list_ex_upt_Suc:
  "list_ex P [0..<Suc n] = (P 0 \<or> list_ex (\<lambda>i. P (Suc i)) [0..<n])"
proof -
  have "(\<exists>i<Suc n. P i) = (P 0 \<or> (\<exists>i<n. P (Suc i)))"
    by (metis less_Suc_eq_0_disj)
  then show ?thesis
    by (simp add: list_ex_iff Bex_def del: upt_Suc)
qed

text \<open>The signals of \<open>n\<close> polls, counted per flag: the server process and the stdio
  server share the flag \<^verbatim>\<open>server_unresponsive\<close>.\<close>

lemma went_down_per_flag:
  "emitted (poll_n e n c) =
     emitted c @ replicate
       ((if \<not> transport_unresponsive c \<and> transport_seen_down e n c then 1 else 0) +
        (if \<not> server_unresponsive c \<and> (server_seen_down e n c \<or> stdio_seen_down e n c)
         then 1 else 0))
       (sig_went_down (language c))"
proof (induction n arbitrary: c)
  case 0
  show ?case
    by (simp add: transport_seen_down_def server_seen_down_def stdio_seen_down_def)
next
  case (Suc n)
  let ?c1 = "snd (is_down e c)"
  let ?p = "procs e (polls c)"
  have h: "language ?c1 = language c" "transport ?c1 = transport c" "server ?c1 = server c"
    "stdio_pid_truthy ?c1 = stdio_pid_truthy c"
    using same_tables_handles [OF is_down_same [of c e]] by simp_all
  have t: "transport_seen_down e (Suc n) c =
      (transport c \<and> (\<not> is_transport_alive ?p \<or> transport_seen_down e n ?c1))"
    by (auto simp add: transport_seen_down_def list_ex_upt_Suc is_down_effect h simp del: upt_Suc)
  have s: "server_seen_down e (Suc n) c =
      ((server c \<and> \<not> is_server_alive ?p) \<or> server_seen_down e n ?c1)"
    by (auto simp add: server_seen_down_def list_ex_upt_Suc is_down_effect h simp del: upt_Suc)
  have d: "stdio_seen_down e (Suc n) c =
      ((stdio_pid_truthy c \<and> \<not> is_stdio_alive ?p) \<or> stdio_seen_down e n ?c1)"
    by (auto simp add: stdio_seen_down_def list_ex_upt_Suc is_down_effect h simp del: upt_Suc)
  have td: "transport_seen_down e n ?c1 \<longrightarrow> transport c"
    by (simp add: transport_seen_down_def h)
  have "emitted (poll_n e (Suc n) c) = emitted (poll_n e n ?c1)"
    by simp
  also have "\<dots> = emitted ?c1 @ replicate
       ((if \<not> transport_unresponsive ?c1 \<and> transport_seen_down e n ?c1 then 1 else 0) +
        (if \<not> server_unresponsive ?c1 \<and> (server_seen_down e n ?c1 \<or> stdio_seen_down e n ?c1)
         then 1 else 0))
       (sig_went_down (language ?c1))"
    by (rule Suc.IH)
  also have "\<dots> = emitted c @ replicate
       ((if \<not> transport_unresponsive c \<and> transport_seen_down e (Suc n) c then 1 else 0) +
        (if \<not> server_unresponsive c \<and>
            (server_seen_down e (Suc n) c \<or> stdio_seen_down e (Suc n) c)
         then 1 else 0))
       (sig_went_down (language c))"
    unfolding t s d is_down_effect h
    using td by (auto simp add: replicate_add [symmetric] simp del: replicate_add)
  finally show ?case .
qed

text \<open>
  Claim C5.  A session has a server process of its own or a stdio server whose process
  id the transport reported, not both: in stdio mode \<^verbatim>\<open>__init__\<close> sets
  \<^verbatim>\<open>external_server\<close>, and \<^verbatim>\<open>start_server\<close> then returns before it creates the
  process.  In such a session each of the three failure categories has a one-shot signal:
  over any number of polls and whatever the processes do, \<^verbatim>\<open>sig_went_down\<close> is
  emitted once for the transport process if it is seen down at some poll, once for the
  server process if it is seen down at some poll, once for the stdio server if it is seen
  down at some poll, and never otherwise; a category whose flag was set before the polls
  has fired already and does not fire again.  So a process that goes down and stays down
  fires the signal of its category exactly once however often the poll runs.
\<close>

theorem went_down_one_shot:
  assumes one: "\<not> (server c \<and> stdio_pid_truthy c)"
  shows "emitted (poll_n e n c) =
     emitted c @ replicate
       ((if \<not> transport_unresponsive c \<and> transport_seen_down e n c then 1 else 0) +
        (if \<not> server_unresponsive c \<and> server_seen_down e n c then 1 else 0) +
        (if \<not> server_unresponsive c \<and> stdio_seen_down e n c then 1 else 0))
       (sig_went_down (language c))"
proof -
  from one have "\<not> (server_seen_down e n c \<and> stdio_seen_down e n c)"
    by (auto simp add: server_seen_down_def stdio_seen_down_def)
  then have "(if \<not> server_unresponsive c \<and> (server_seen_down e n c \<or> stdio_seen_down e n c)
         then 1 else 0) =
        (if \<not> server_unresponsive c \<and> server_seen_down e n c then 1 else 0) +
        (if \<not> server_unresponsive c \<and> stdio_seen_down e n c then (1::nat) else 0)"
    by auto
  then show ?thesis
    by (simp only: went_down_per_flag [of e n c] add.assoc)
qed

text \<open>A stdio session whose server is gone from the second poll on and whose transport
  dies at the third: five polls emit the signal twice, once per category.  A session with
  a server process that is down at all five polls emits it once.\<close>

theorem went_down_one_shot_witness:
  "\<not> (server ((new_client ''python'' [] [] (PDict []))\<lparr>transport := True, stdio_pid := Some 4242\<rparr>) \<and>
      stdio_pid_truthy
        ((new_client ''python'' [] [] (PDict []))\<lparr>transport := True, stdio_pid := Some 4242\<rparr>)) \<and>
   emitted (poll_n
      (quiet_env\<lparr>procs := (\<lambda>n. \<lparr>transport_state = (if n < 2 then Running else NotRunning),
                                  server_state = Running, pid_exists = (n = 0),
                                  process_status = Some ''running''\<rparr>)\<rparr>)
      5 ((new_client ''python'' [] [] (PDict []))\<lparr>transport := True, stdio_pid := Some 4242\<rparr>))
   = [sig_went_down ''python'', sig_went_down ''python''] \<and>
   emitted (poll_n
      (quiet_env\<lparr>procs := (\<lambda>n. \<lparr>transport_state = Running, server_state = NotRunning,
                                  pid_exists = True, process_status = Some ''running''\<rparr>)\<rparr>)
      5 ((new_client ''python'' [] [] (PDict []))\<lparr>transport := True, server := True\<rparr>))
   = [sig_went_down ''python'']"
proof -
  let ?e = "quiet_env\<lparr>procs := (\<lambda>n. \<lparr>transport_state = (if n < 2 then Running else NotRunning),
                                  server_state = Running, pid_exists = (n = 0),
                                  process_status = Some ''running''\<rparr>)\<rparr>"
  let ?c = "(new_client ''python'' [] [] (PDict []))\<lparr>transport := True, stdio_pid := Some 4242\<rparr>"
  let ?e2 = "quiet_env\<lparr>procs := (\<lambda>n. \<lparr>transport_state = Running, server_state = NotRunning,
                                  pid_exists = True, process_status = Some ''running''\<rparr>)\<rparr>"
  let ?c2 = "(new_client ''python'' [] [] (PDict []))\<lparr>transport := True, server := True\<rparr>"
  have one: "\<not> (server ?c \<and> stdio_pid_truthy ?c)"
    by (simp add: new_client_def)
  have t: "transport_seen_down ?e 5 ?c"
    by (auto simp add: transport_seen_down_def new_client_def quiet_env_def
        is_transport_alive_def list_ex_iff intro: exI [of _ "2::nat"])
  have s: "\<not> server_seen_down ?e 5 ?c"
    by (simp add: server_seen_down_def new_client_def)
  have d: "stdio_seen_down ?e 5 ?c"
    by (auto simp add: stdio_seen_down_def new_client_def quiet_env_def stdio_pid_truthy_def
        is_stdio_alive_def list_ex_iff intro: exI [of _ "1::nat"])
  have one2: "\<not> (server ?c2 \<and> stdio_pid_truthy ?c2)"
    by (simp add: new_client_def stdio_pid_truthy_def)
  have t2: "\<not> transport_seen_down ?e2 5 ?c2"
    by (simp add: transport_seen_down_def new_client_def quiet_env_def
        is_transport_alive_def list_ex_iff)
  have s2: "server_seen_down ?e2 5 ?c2"
    by (auto simp add: server_seen_down_def new_client_def quiet_env_def
        is_server_alive_def list_ex_iff intro: exI [of _ "0::nat"])
  have d2: "\<not> stdio_seen_down ?e2 5 ?c2"
    by (simp add: stdio_seen_down_def new_client_def stdio_pid_truthy_def)
  have 1: "emitted (poll_n ?e 5 ?c) = [sig_went_down ''python'', sig_went_down ''python'']"
    using went_down_one_shot [OF one, of ?e 5] t s d
    by (simp add: new_client_def numeral_2_eq_2)
  have 2: "emitted (poll_n ?e2 5 ?c2) = [sig_went_down ''python'']"
    using went_down_one_shot [OF one2, of ?e2 5] t2 s2 d2
    by (simp add: new_client_def)
  from one 1 2 show ?thesis
    by simp
qed

section \<open>The retry budget of a send\<close>

text \<open>A poll that finds nothing down emits nothing.  On a channel that always reports
  a full queue the retry loop gives up: it returns no id at the first reading of the
  clock that is past the deadline, after one more attempt than sleeps.\<close>

lemma is_down_fst:
  "fst (is_down e c) =
     ((transport c \<and> \<not> is_transport_alive (procs e (polls c))) \<or>
      (server c \<and> \<not> is_server_alive (procs e (polls c))) \<or>
      (stdio_pid_truthy c \<and> \<not> is_stdio_alive (procs e (polls c))))"
proof -
  let ?p = "procs e (polls c)"
  let ?c0 = "c\<lparr>polls := Suc (polls c)\<rparr>"
  let ?c1 = "snd (check_transport ?p ?c0)"
  let ?c2 = "snd (check_server ?p ?c1)"
  have h1: "server ?c1 = server c" "stdio_pid_truthy ?c1 = stdio_pid_truthy c"
    using same_tables_handles [OF check_transport_same [of ?c0 ?p]]
    by (simp_all add: stdio_pid_truthy_def)
  have h2: "stdio_pid_truthy ?c2 = stdio_pid_truthy ?c1"
    using same_tables_handles [OF check_server_same [of ?c1 ?p]] by simp
  have f1: "fst (check_transport ?p ?c0) = (transport c \<and> \<not> is_transport_alive ?p)"
    by (simp add: check_transport_def)
  have f2: "fst (check_server ?p ?c1) = (server ?c1 \<and> \<not> is_server_alive ?p)"
    by (simp add: check_server_def)
  have f3: "fst (check_stdio ?p ?c2) = (stdio_pid_truthy ?c2 \<and> \<not> is_stdio_alive ?p)"
    by (simp add: check_stdio_def)
  show ?thesis
    unfolding is_down_def is_down_at_fst f1 f2 f3 h2 h1 ..
qed

lemma is_down_quiet:
  assumes "\<not> fst (is_down e c)"
  shows "emitted (snd (is_down e c)) = emitted c"
  using assms by (simp add: is_down_fst is_down_effect)

lemma send_loop_blocked:
  "\<forall>n. chan e n = Again \<Longrightarrow> send_loop e msg ident tt c = (r, c') \<Longrightarrow>
     r = Inr PNone \<and> tt < now c' \<and>
     emitted c' = emitted c @ [sig_went_down (language c)] \<and>
     request_seq c' = request_seq c \<and> outbox c' = outbox c \<and>
     sleeps c \<le> sleeps c' \<and> attempts c < attempts c' \<and>
     attempts c' + sleeps c = Suc (attempts c + sleeps c') \<and>
     now c' = now c + (\<Sum>k = sleeps c..<sleeps c'. 100 + int (lag e k)) +
                (\<Sum>k = attempts c..<attempts c'. int (cost e k)) \<and>
     (sleeps c < sleeps c' \<longrightarrow>
        100 * int (sleeps c') \<le> tt - now c + 100 + 100 * int (sleeps c)) \<and>
     (\<exists>i j. attempts c' = Suc j \<and>
        (sleeps c' = sleeps c \<and> j = attempts c \<or>
         sleeps c' = Suc i \<and> sleeps c \<le> i \<and>
         now c' \<le> tt + 100 + int (lag e i) + int (cost e j)))"
proof (induction e msg ident tt c arbitrary: r c' rule: send_loop.induct)
  case (1 e msg ident tt c)
  from "1.prems" have ag: "chan e (attempts c) = Again" by simp
  let ?t1 = "now c + int (cost e (attempts c))"
  show ?case
  proof (cases "tt < ?t1")
    case True
    with ag "1.prems"(2)
    have c': "c' = emit (sig_went_down (language c))
        (c\<lparr>attempts := Suc (attempts c), now := ?t1\<rparr>)" and r: "r = Inr PNone"
      by (auto simp add: send_loop.simps [of e msg ident tt c])
    have f: "sleeps c' = sleeps c" "attempts c' = Suc (attempts c)" "now c' = ?t1"
      "emitted c' = emitted c @ [sig_went_down (language c)]"
      "request_seq c' = request_seq c" "outbox c' = outbox c"
      by (simp_all add: c' emit_def)
    from True r show ?thesis
      unfolding f by simp
  next
    case False
    let ?c2 = "c\<lparr>attempts := Suc (attempts c),
                 now := ?t1 + 100 + int (lag e (sleeps c)), sleeps := Suc (sleeps c)\<rparr>"
    from False ag "1.prems"(2) have rec: "send_loop e msg ident tt ?c2 = (r, c')"
      by (simp add: send_loop.simps [of e msg ident tt c])
    have ih: "r = Inr PNone \<and> tt < now c' \<and>
       emitted c' = emitted ?c2 @ [sig_went_down (language ?c2)] \<and>
       request_seq c' = request_seq ?c2 \<and> outbox c' = outbox ?c2 \<and>
       sleeps ?c2 \<le> sleeps c' \<and> attempts ?c2 < attempts c' \<and>
       attempts c' + sleeps ?c2 = Suc (attempts ?c2 + sleeps c') \<and>
       now c' = now ?c2 + (\<Sum>k = sleeps ?c2..<sleeps c'. 100 + int (lag e k)) +
                  (\<Sum>k = attempts ?c2..<attempts c'. int (cost e k)) \<and>
       (sleeps ?c2 < sleeps c' \<longrightarrow>
          100 * int (sleeps c') \<le> tt - now ?c2 + 100 + 100 * int (sleeps ?c2)) \<and>
       (\<exists>i j. attempts c' = Suc j \<and>
          (sleeps c' = sleeps ?c2 \<and> j = attempts ?c2 \<or>
           sleeps c' = Suc i \<and> sleeps ?c2 \<le> i \<and>
           now c' \<le> tt + 100 + int (lag e i) + int (cost e j)))"
      using "1.IH" [OF refl ag, of r c'] False rec "1.prems"(1) by auto
    then have le: "Suc (sleeps c) \<le> sleeps c'" and la: "Suc (attempts c) < attempts c'"
      by simp_all
    have sum: "(\<Sum>k = sleeps c..<sleeps c'. 100 + int (lag e k)) =
        100 + int (lag e (sleeps c)) + (\<Sum>k = Suc (sleeps c)..<sleeps c'. 100 + int (lag e k))"
      using le by (simp add: sum.atLeast_Suc_lessThan)
    have suma: "(\<Sum>k = attempts c..<attempts c'. int (cost e k)) =
        int (cost e (attempts c)) + (\<Sum>k = Suc (attempts c)..<attempts c'. int (cost e k))"
      using la by (simp add: sum.atLeast_Suc_lessThan)
    have a: "r = Inr PNone" "tt < now c'"
      "emitted c' = emitted c @ [sig_went_down (language c)]"
      "request_seq c' = request_seq c" "outbox c' = outbox c" "sleeps c \<le> sleeps c'"
      "attempts c < attempts c'"
      using ih by simp_all
    have b: "attempts c' + sleeps c = Suc (attempts c + sleeps c')"
      using ih by simp
    have d: "now c' = now c + (\<Sum>k = sleeps c..<sleeps c'. 100 + int (lag e k)) +
        (\<Sum>k = attempts c..<attempts c'. int (cost e k))"
      using ih by (simp add: sum suma)
    have g: "100 * int (sleeps c') \<le> tt - now c + 100 + 100 * int (sleeps c)"
    proof (cases "Suc (sleeps c) < sleeps c'")
      case True
      with ih have "100 * int (sleeps c') \<le> tt - now ?c2 + 100 + 100 * int (sleeps ?c2)"
        by simp
      then show ?thesis by simp
    next
      case nt: False
      with le have "sleeps c' = Suc (sleeps c)" by simp
      with False show ?thesis by simp
    qed
    from ih obtain i j where j: "attempts c' = Suc j"
      and ij: "sleeps c' = Suc (sleeps c) \<and> j = Suc (attempts c) \<or>
         sleeps c' = Suc i \<and> Suc (sleeps c) \<le> i \<and>
         now c' \<le> tt + 100 + int (lag e i) + int (cost e j)"
      by auto
    have h: "\<exists>i j. attempts c' = Suc j \<and>
        (sleeps c' = sleeps c \<and> j = attempts c \<or>
         sleeps c' = Suc i \<and> sleeps c \<le> i \<and>
         now c' \<le> tt + 100 + int (lag e i) + int (cost e j))"
      using ij
    proof
      assume one: "sleeps c' = Suc (sleeps c) \<and> j = Suc (attempts c)"
      with j ih have "now c' = now ?c2 + int (cost e j)"
        by simp
      with False have "now c' \<le> tt + 100 + int (lag e (sleeps c)) + int (cost e j)"
        by simp
      with one j show ?thesis
        by blast
    next
      assume "sleeps c' = Suc i \<and> Suc (sleeps c) \<le> i \<and>
         now c' \<le> tt + 100 + int (lag e i) + int (cost e j)"
      then have "sleeps c' = Suc i \<and> sleeps c \<le> i \<and>
         now c' \<le> tt + 100 + int (lag e i) + int (cost e j)"
        by simp
      with j show ?thesis
        by blast
    qed
    from a b d g h show ?thesis by simp
  qed
qed

text \<open>
  Claim C2.  On a channel that always would block, a call to \<^verbatim>\<open>send\<close> never returns
  an id and never advances the id counter.  If the session is not down and the params
  have no cancel sentinel, \<^verbatim>\<open>send\<close> returns \<^verbatim>\<open>None\<close> and puts nothing on the
  channel.  Every retry comes after one \<^verbatim>\<open>time.sleep(.1)\<close>: there is one more attempt
  than sleeps, and the clock has advanced by the sleeps, of 100 ms and what the scheduler
  adds, and by the attempts.  The budget is one second from the first attempt, up to
  scheduling slack: \<^verbatim>\<open>send\<close> sleeps at most eleven times, it gives up at the first
  reading of the clock after a failed attempt that is past the deadline, and the reading
  before that was within the budget, so that it returns at most one sleep and one attempt
  after the deadline (when the first attempt alone outlasts the budget, after that
  attempt).  The connectivity-lost signal is emitted then, once.
\<close>

theorem send_retry_budget:
  assumes block: "\<forall>n. chan e n = Again"
  shows "(\<forall>n. fst (send e method params kind c) \<noteq> Inr (PInt n)) \<and>
         request_seq (snd (send e method params kind c)) = request_seq c \<and>
         (\<not> fst (is_down e c) \<and> py_in (CANCEL e) params = Inr False \<longrightarrow>
            fst (send e method params kind c) = Inr PNone \<and>
            emitted (snd (send e method params kind c)) =
              emitted c @ [sig_went_down (language c)] \<and>
            outbox (snd (send e method params kind c)) = outbox c \<and>
            sleeps c \<le> sleeps (snd (send e method params kind c)) \<and>
            sleeps (snd (send e method params kind c)) \<le> sleeps c + 11 \<and>
            attempts (snd (send e method params kind c)) + sleeps c =
              Suc (attempts c + sleeps (snd (send e method params kind c))) \<and>
            now (snd (send e method params kind c)) =
              now c + (\<Sum>k = sleeps c..<sleeps (snd (send e method params kind c)).
                         100 + int (lag e k))
                    + (\<Sum>k = attempts c..<attempts (snd (send e method params kind c)).
                         int (cost e k)) \<and>
            now c + 1000 < now (snd (send e method params kind c)) \<and>
            (\<exists>i j. attempts (snd (send e method params kind c)) = Suc j \<and>
               (sleeps (snd (send e method params kind c)) = sleeps c \<and> j = attempts c \<or>
                sleeps (snd (send e method params kind c)) = Suc i \<and> sleeps c \<le> i \<and>
                now (snd (send e method params kind c)) \<le>
                  now c + 1000 + 100 + int (lag e i) + int (cost e j))))"
proof -
  let ?c1 = "snd (is_down e c)"
  let ?c2 = "snd (build_msg method params kind ?c1)"
  let ?msg = "fst (build_msg method params kind ?c1)"
  let ?tt = "now ?c2 + 1000"
  obtain r c' where rc: "send_loop e ?msg (request_seq ?c1) ?tt ?c2 = (r, c')"
    by (cases "send_loop e ?msg (request_seq ?c1) ?tt ?c2")
  note L = send_loop_blocked [OF block rc]
  have c2: "now ?c2 = now c" "sleeps ?c2 = sleeps c" "attempts ?c2 = attempts c"
    "language ?c2 = language c" "outbox ?c2 = outbox c" "request_seq ?c2 = request_seq c"
    by (simp_all add: build_msg_frame is_down_fields)
  have loop: "send e method params kind c = (r, c')"
    if "\<not> fst (is_down e c)" "py_in (CANCEL e) params = Inr False"
    using that by (simp add: send_cases rc)
  have other: "send e method params kind c = (Inr PNone, ?c1) \<or>
      (\<exists>ex. send e method params kind c = (Inl ex, ?c1))"
    if "fst (is_down e c) \<or> py_in (CANCEL e) params \<noteq> Inr False"
    using that by (auto simp add: send_cases split: sum.splits bool.splits)
  have never: "fst (send e method params kind c) \<noteq> Inr (PInt n)" for n
  proof (cases "fst (is_down e c) \<or> py_in (CANCEL e) params \<noteq> Inr False")
    case True
    from other [OF True] show ?thesis by auto
  next
    case False
    with loop have "send e method params kind c = (r, c')" by simp
    with L show ?thesis by simp
  qed
  have seq: "request_seq (snd (send e method params kind c)) = request_seq c"
  proof (cases "fst (is_down e c) \<or> py_in (CANCEL e) params \<noteq> Inr False")
    case True
    from other [OF True] show ?thesis by (auto simp add: is_down_fields)
  next
    case False
    with loop have "send e method params kind c = (r, c')" by simp
    moreover from L have "request_seq c' = request_seq ?c2" by simp
    ultimately show ?thesis by (simp add: c2)
  qed
  have main: "fst (send e method params kind c) = Inr PNone \<and>
            emitted (snd (send e method params kind c)) =
              emitted c @ [sig_went_down (language c)] \<and>
            outbox (snd (send e method params kind c)) = outbox c \<and>
            sleeps c \<le> sleeps (snd (send e method params kind c)) \<and>
            sleeps (snd (send e method params kind c)) \<le> sleeps c + 11 \<and>
            attempts (snd (send e method params kind c)) + sleeps c =
              Suc (attempts c + sleeps (snd (send e method params kind c))) \<and>
            now (snd (send e method params kind c)) =
              now c + (\<Sum>k = sleeps c..<sleeps (snd (send e method params kind c)).
                         100 + int (lag e k))
                    + (\<Sum>k = attempts c..<attempts (snd (send e method params kind c)).
                         int (cost e k)) \<and>
            now c + 1000 < now (snd (send e method params kind c)) \<and>
            (\<exists>i j. attempts (snd (send e method params kind c)) = Suc j \<and>
               (sleeps (snd (send e method params kind c)) = sleeps c \<and> j = attempts c \<or>
                sleeps (snd (send e method params kind c)) = Suc i \<and> sleeps c \<le> i \<and>
                now (snd (send e method params kind c)) \<le>
                  now c + 1000 + 100 + int (lag e i) + int (cost e j)))"
    if nd: "\<not> fst (is_down e c)" and nc: "py_in (CANCEL e) params = Inr False"
  proof -
    from nd nc have eq: "send e method params kind c = (r, c')"
      by (rule loop)
    have em: "emitted ?c2 = emitted c"
      by (simp add: build_msg_frame is_down_quiet [OF nd])
    from L have l1: "r = Inr PNone" and l2: "?tt < now c'"
      and l3: "emitted c' = emitted ?c2 @ [sig_went_down (language ?c2)]"
      and l4: "outbox c' = outbox ?c2"
      and l5: "attempts c' + sleeps ?c2 = Suc (attempts ?c2 + sleeps c')"
      and l6: "now c' = now ?c2 + (\<Sum>k = sleeps ?c2..<sleeps c'. 100 + int (lag e k)) +
                (\<Sum>k = attempts ?c2..<attempts c'. int (cost e k))"
      and l7: "sleeps ?c2 \<le> sleeps c'"
      and l8: "sleeps ?c2 < sleeps c' \<longrightarrow>
          100 * int (sleeps c') \<le> ?tt - now ?c2 + 100 + 100 * int (sleeps ?c2)"
      and l9: "\<exists>i j. attempts c' = Suc j \<and>
        (sleeps c' = sleeps ?c2 \<and> j = attempts ?c2 \<or>
         sleeps c' = Suc i \<and> sleeps ?c2 \<le> i \<and>
         now c' \<le> ?tt + 100 + int (lag e i) + int (cost e j))"
      by auto
    from l7 l8 have l8': "sleeps c' \<le> sleeps c + 11"
      by (cases "sleeps ?c2 < sleeps c'") (simp_all add: c2)
    from l1 l2 l3 l4 l5 l6 l7 l8' l9 show ?thesis
      unfolding eq fst_conv snd_conv c2 em by simp
  qed
  from never seq main show ?thesis by blast
qed

text \<open>A channel that always would block and sleeps that take 103 ms: the eleventh
  attempt fails at 1030 ms, past the deadline, and \<^verbatim>\<open>send\<close> gives up there, after ten
  sleeps.\<close>

theorem send_retry_budget_witness:
  "(\<forall>n. chan (quiet_env\<lparr>chan := (\<lambda>n. Again), lag := (\<lambda>n. 3)\<rparr>) n = Again) \<and>
   \<not> fst (is_down (quiet_env\<lparr>chan := (\<lambda>n. Again), lag := (\<lambda>n. 3)\<rparr>) (hover_pending ''python'')) \<and>
   now (hover_pending ''python'') = 0 \<and>
   fst (send (quiet_env\<lparr>chan := (\<lambda>n. Again), lag := (\<lambda>n. 3)\<rparr>) ''textDocument/completion''
          (PDict []) REQUEST (hover_pending ''python'')) = Inr PNone \<and>
   emitted (snd (send (quiet_env\<lparr>chan := (\<lambda>n. Again), lag := (\<lambda>n. 3)\<rparr>)
          ''textDocument/completion'' (PDict []) REQUEST (hover_pending ''python'')))
     = [sig_went_down ''python''] \<and>
   request_seq (snd (send (quiet_env\<lparr>chan := (\<lambda>n. Again), lag := (\<lambda>n. 3)\<rparr>)
          ''textDocument/completion'' (PDict []) REQUEST (hover_pending ''python''))) = 2 \<and>
   now (snd (send (quiet_env\<lparr>chan := (\<lambda>n. Again), lag := (\<lambda>n. 3)\<rparr>)
          ''textDocument/completion'' (PDict []) REQUEST (hover_pending ''python''))) = 1030 \<and>
   sleeps (snd (send (quiet_env\<lparr>chan := (\<lambda>n. Again), lag := (\<lambda>n. 3)\<rparr>)
          ''textDocument/completion'' (PDict []) REQUEST (hover_pending ''python''))) = 10 \<and>
   attempts (snd (send (quiet_env\<lparr>chan := (\<lambda>n. Again), lag := (\<lambda>n. 3)\<rparr>)
          ''textDocument/completion'' (PDict []) REQUEST (hover_pending ''python''))) = 11"
proof -
  let ?e = "quiet_env\<lparr>chan := (\<lambda>n. Again), lag := (\<lambda>n. 3)\<rparr>"
  let ?c = "hover_pending ''python''"
  have b: "\<forall>n. chan ?e n = Again" by simp
  have nd: "\<not> fst (is_down ?e ?c)"
    by (simp add: is_down_fst quiet_env_def hover_pending_def new_client_def
        is_transport_alive_def stdio_pid_truthy_def)
  have nc: "py_in (CANCEL ?e) (PDict []) = Inr False" by simp
  have run: "now ?c = 0 \<and>
      now (snd (send ?e ''textDocument/completion'' (PDict []) REQUEST ?c)) = 1030 \<and>
      sleeps (snd (send ?e ''textDocument/completion'' (PDict []) REQUEST ?c)) = 10 \<and>
      attempts (snd (send ?e ''textDocument/completion'' (PDict []) REQUEST ?c)) = 11"
    by (simp add: eval_send send_loop.simps)
  from send_retry_budget [OF b, of "''textDocument/completion''" "PDict []" REQUEST ?c] nd nc
  have "fst (send ?e ''textDocument/completion'' (PDict []) REQUEST ?c) = Inr PNone \<and>
      emitted (snd (send ?e ''textDocument/completion'' (PDict []) REQUEST ?c))
        = [sig_went_down ''python''] \<and>
      request_seq (snd (send ?e ''textDocument/completion'' (PDict []) REQUEST ?c)) = 2"
    by (simp add: hover_pending_def new_client_def)
  with b nd run show ?thesis
    by simp
qed

section \<open>The request ids of a session\<close>





lemma ids_kept_same:
  "request_seq c1 = request_seq c \<Longrightarrow> req_status c1 = req_status c \<Longrightarrow> ids_kept c c1"
  by (simp add: ids_kept_def)

















end
